theory Spec2Isabelle
  imports Main "HOL-Library.AList"
begin

section \<open>The command interpreter of Tale (tale/base.py): data model\<close>

text \<open>
  Every object of the world is a \<open>MudObject\<close>. The classes the interpreter tells apart are
  \<open>Living\<close>, \<open>Item\<close> and \<open>Exit\<close>. \<open>MudObject\<close> defines neither \<open>__eq__\<close> nor
  \<open>__hash__\<close>, so dictionaries, \<open>in\<close>, \<open>is\<close> and \<open>list.remove\<close> compare objects by
  identity. The field \<open>oid\<close> stands for that identity: two objects of a snapshot differ in
  \<open>oid\<close>, so equality of values is identity of objects.

  \<open>default_verb\<close> is \<open>None\<close> where the attribute is missing (an \<open>Exit\<close>); \<open>contents\<close> is the
  \<open>inventory\<close> property, \<open>None\<close> where reading it raises \<open>ActionRefused\<close> (a plain \<open>Item\<close>).
  Python sets (\<open>aliases\<close>, inventories, the livings and items of a location) are lists in
  the order in which the set is iterated.
\<close>

datatype kind = Living | Item | Exit

datatype mudobject = MudObject
  (oid: nat) (kind: kind) (name: string) (aliases: "string list") (title: string)
  (subjective: string) (possessive: string) (objective: string)
  (default_verb: "string option") (contents: "mudobject list option")

text \<open>The snapshot one call of the interpreter reads: the actor, its inventory and its location.\<close>

record world =
  player :: mudobject
  inventory :: "mudobject list"
  livings :: "mudobject list"
  items :: "mudobject list"
  exits :: "(string \<times> mudobject) list"

text \<open>\<open>ParseResult.WhoInfo\<close>: the sequence number and the word before the mention.\<close>

record whoinfo =
  sequence :: nat
  previous_word :: "string option"

record parse_result =
  verb :: string
  who_info :: "(mudobject \<times> whoinfo) list"
  who_order :: "mudobject list"
  adverb :: "string option"
  message :: string
  bodypart :: "string option"
  qualifier :: "string option"
  args :: "string list"
  unrecognized :: "string list"
  unparsed :: string

text \<open>Every exception the modelled code can raise, as a value.\<close>

datatype error =
    ParseError string
  | UnknownVerbException string "string list option" "string option"
  | NonSoulVerb parse_result
  | ActionRefused string
  | TaleError string
  | KeyError
  | ValueError
  | IndexError
  | AttributeError
  | TypeError

section \<open>Strings\<close>

text \<open>
  A \<open>char\<close> is a code point below 256. \<open>str.isspace\<close> holds there for the ASCII
  white space, the separators 28 to 31, NEL (133) and the no-break space (160).
\<close>

definition isspace :: "char \<Rightarrow> bool" where
  "isspace c = (of_char c \<in> set [9, 10, 11, 12, 13, 28, 29, 30, 31, 32, 133, 160 :: nat])"

definition lstrip :: "string \<Rightarrow> string" where
  "lstrip s = dropWhile isspace s"

definition rstrip :: "string \<Rightarrow> string" where
  "rstrip s = rev (dropWhile isspace (rev s))"

definition strip :: "string \<Rightarrow> string" where
  "strip s = rstrip (lstrip s)"

text \<open>\<open>word.rstrip(",")\<close> removes every trailing comma.\<close>

definition rstrip_comma :: "string \<Rightarrow> string" where
  "rstrip_comma s = rev (dropWhile (\<lambda>c. c = CHR '','') (rev s))"

text \<open>\<open>str.split()\<close> without argument: the maximal runs of non-space characters.\<close>

fun split_acc :: "string \<Rightarrow> string \<Rightarrow> string list" where
  "split_acc cur [] = (if cur = [] then [] else [rev cur])"
| "split_acc cur (c # cs) =
     (if isspace c then (if cur = [] then split_acc [] cs else rev cur # split_acc [] cs)
      else split_acc (c # cur) cs)"

definition split :: "string \<Rightarrow> string list" where
  "split s = split_acc [] s"

text \<open>\<open>" ".join(xs)\<close>.\<close>

fun join_space :: "string list \<Rightarrow> string" where
  "join_space [] = []"
| "join_space [x] = x"
| "join_space (x # y # ys) = x @ '' '' @ join_space (y # ys)"

text \<open>\<open>sub in s\<close> and \<open>s.startswith(sub)\<close>.\<close>

fun startswith :: "string \<Rightarrow> string \<Rightarrow> bool" where
  "startswith s [] = True"
| "startswith [] (p # ps) = False"
| "startswith (c # cs) (p # ps) = (c = p \<and> startswith cs ps)"

fun contains :: "string \<Rightarrow> string \<Rightarrow> bool" where
  "contains [] sub = (sub = [])"
| "contains (c # cs) sub = (startswith (c # cs) sub \<or> contains cs sub)"

text \<open>\<open>s.replace(old, new)\<close> for a non-empty \<open>old\<close>: left to right, without overlap.\<close>

function replace :: "string \<Rightarrow> string \<Rightarrow> string \<Rightarrow> string" where
  "replace old new [] = []"
| "replace old new (c # cs) =
     (if old \<noteq> [] \<and> startswith (c # cs) old
      then new @ replace old new (drop (length old) (c # cs))
      else c # replace old new cs)"
  by pat_completeness auto
termination
  by (relation "measure (\<lambda>(old, new, s). length s)") auto

text \<open>\<open>str.lower\<close> on code points below 256: A to Z, and 192 to 222 without 215.\<close>

definition lower_char :: "char \<Rightarrow> char" where
  "lower_char c =
     (let n = (of_char c :: nat)
      in if (65 \<le> n \<and> n \<le> 90) \<or> (192 \<le> n \<and> n \<le> 222 \<and> n \<noteq> 215)
         then char_of (n + 32) else c)"

definition lower :: "string \<Rightarrow> string" where
  "lower s = map lower_char s"

section \<open>Soul.check\_name\_with\_spaces\<close>

text \<open>
  The \<open>while wordcount < 6\<close> loop. Reading \<open>words[index + wordcount]\<close> past the end raises
  \<open>IndexError\<close>, which the \<open>try\<close> around the loop turns into the result \<open>(None, None, 0)\<close>.
\<close>

function cnws_loop ::
  "string list \<Rightarrow> nat \<Rightarrow> (string \<rightharpoonup> mudobject) \<Rightarrow> (string \<rightharpoonup> mudobject) \<Rightarrow> string \<Rightarrow> nat
     \<Rightarrow> mudobject option \<times> string option \<times> nat" where
  "cnws_loop words index all_livings all_items nm wordcount =
     (if wordcount < 6 then
        (case all_livings nm of
           Some x \<Rightarrow> (Some x, Some nm, wordcount)
         | None \<Rightarrow>
            (case all_items nm of
               Some x \<Rightarrow> (Some x, Some nm, wordcount)
             | None \<Rightarrow>
                (if index + wordcount < length words
                 then cnws_loop words index all_livings all_items
                        (nm @ '' '' @ words ! (index + wordcount)) (wordcount + 1)
                 else (None, None, 0))))
      else (None, None, 0))"
  by pat_completeness auto
termination
  by (relation "measure (\<lambda>(words, index, all_livings, all_items, nm, wordcount). 6 - wordcount)") auto

declare cnws_loop.simps [simp del]

text \<open>\<open>name = words[index]\<close> stands before the \<open>try\<close>: an index out of range raises.\<close>

definition check_name_with_spaces ::
  "string list \<Rightarrow> nat \<Rightarrow> (string \<rightharpoonup> mudobject) \<Rightarrow> (string \<rightharpoonup> mudobject)
     \<Rightarrow> error + (mudobject option \<times> string option \<times> nat)" where
  "check_name_with_spaces words index all_livings all_items =
     (if index < length words
      then Inr (cnws_loop words index all_livings all_items (words ! index) 1)
      else Inl IndexError)"

text \<open>The candidate of \<open>k\<close> words starting at \<open>index\<close>, and the lookup in both dictionaries.\<close>

definition candidate :: "string list \<Rightarrow> nat \<Rightarrow> nat \<Rightarrow> string" where
  "candidate words index k = join_space (take k (drop index words))"

definition lookup2 :: "(string \<rightharpoonup> mudobject) \<Rightarrow> (string \<rightharpoonup> mudobject) \<Rightarrow> string \<Rightarrow> mudobject option" where
  "lookup2 all_livings all_items nm =
     (case all_livings nm of Some x \<Rightarrow> Some x | None \<Rightarrow> all_items nm)"

text \<open>
  The multi-word matching algorithm in the words of the specification, with the cap on the
  number of words as a parameter: the first \<open>k\<close> from 1 up to the cap, within the word
  list, whose candidate is a key of one of the dictionaries.
\<close>

definition shortest_match ::
  "nat \<Rightarrow> string list \<Rightarrow> nat \<Rightarrow> (string \<rightharpoonup> mudobject) \<Rightarrow> (string \<rightharpoonup> mudobject)
     \<Rightarrow> mudobject option \<times> string option \<times> nat" where
  "shortest_match cap words index all_livings all_items =
     (case find (\<lambda>k. lookup2 all_livings all_items (candidate words index k) \<noteq> None)
             [1 ..< Suc (min cap (length words - index))] of
        None \<Rightarrow> (None, None, 0)
      | Some k \<Rightarrow> (lookup2 all_livings all_items (candidate words index k),
                   Some (candidate words index k), k))"

section \<open>The tables of tale/verbdefs.py and tale/lang.py\<close>

text \<open>
  Neither module is among the sources, so the tables and the text helpers the interpreter
  reads from them are parameters. A verb table entry is the tuple
  \<open>(vtype, defaults, template, ...)\<close>: \<open>defaults\<close> is \<open>verbdata[1]\<close> (\<open>None\<close> or a tuple of
  adverb, message and where-clause, each possibly \<open>None\<close>), \<open>templates\<close> are the entries from
  \<open>verbdata[2]\<close> on. The second argument of \<open>lang_join\<close> is its \<open>conj\<close>, "and" where
  the call leaves it out.
\<close>

datatype vtype = DEUX | QUAD | FULL | DEFA | PREV | PHYS | SHRT | PERS | SIMP | InvalidType string

record verbdata =
  vtype :: vtype
  defaults :: "string option list option"
  templates :: "string list"

record tables =
  VERBS :: "string \<rightharpoonup> verbdata"
  ACTION_QUALIFIERS :: "string \<rightharpoonup> (string \<times> string \<times> bool)"
  BODY_PARTS :: "string \<rightharpoonup> string"
  MOVEMENT_VERBS :: "string set"
  NONLIVING_OK_VERBS :: "string set"
  ADVERBS :: "string set"
  adverb_by_prefix :: "string \<Rightarrow> string list"
  lang_capital :: "string \<Rightarrow> string"
  lang_join :: "string list \<Rightarrow> string \<Rightarrow> string"
  lang_possessive :: "string \<Rightarrow> string"
  lang_fullstop :: "string \<Rightarrow> string"

text \<open>\<open>verbdata[i]\<close> for \<open>i \<ge> 2\<close>; a tuple that is too short raises \<open>IndexError\<close>.\<close>

definition verbdata_get :: "verbdata \<Rightarrow> nat \<Rightarrow> error + string" where
  "verbdata_get vd i =
     (if 2 \<le> i \<and> i - 2 < length (templates vd) then Inr (templates vd ! (i - 2)) else Inl IndexError)"

definition skip_words :: "string set" where
  "skip_words = set [''and'', ''&'', ''at'', ''to'', ''before'', ''in'', ''into'', ''on'', ''off'', ''onto'',
                     ''the'', ''with'', ''from'', ''after'', ''before'', ''under'', ''above'', ''next'']"

section \<open>The quoted message\<close>

text \<open>
  \<open>_quoted_message_regex.search(cmd)\<close> for the pattern \<open>('(.*)')|("(.*)")\<close>: the leftmost start
  at which a quote character is followed, before the next newline (which \<open>.\<close> does not
  match), by the same quote character; the greedy \<open>.*\<close> runs to the last such character.
  The result is \<open>(m.start(), m.end(), single, content)\<close>, where \<open>single\<close> tells that the
  group \<open>msg1\<close> matched and \<open>content\<close> is the text of the group.
\<close>

definition newline :: char where
  "newline = CHR 0x0A"

fun quoted_search :: "nat \<Rightarrow> string \<Rightarrow> (nat \<times> nat \<times> bool \<times> string) option" where
  "quoted_search p [] = None"
| "quoted_search p (c # cs) =
     (let line = takeWhile (\<lambda>x. x \<noteq> newline) cs
      in if (c = CHR 0x27 \<or> c = CHR 0x22) \<and> c \<in> set line
         then (let j = length line - Suc (length (takeWhile (\<lambda>x. x \<noteq> c) (rev line)))
               in Some (p, p + j + 2, c = CHR 0x27, take j line))
         else quoted_search (Suc p) cs)"

text \<open>
  \<open>(m.group("msg1") or m.group("msg2")).strip()\<close>: an empty \<open>msg1\<close> is falsy, \<open>msg2\<close> is then
  \<open>None\<close>, and \<open>None.strip()\<close> raises \<open>AttributeError\<close>. The result is the new \<open>message\<close> list
  and the command line without the quoted span.
\<close>

definition extract_message :: "string \<Rightarrow> error + (string list \<times> string)" where
  "extract_message cmd =
     (case quoted_search 0 cmd of
        None \<Rightarrow> Inr ([], cmd)
      | Some (start, stop, single, content) \<Rightarrow>
          (if single \<and> content = [] then Inl AttributeError
           else Inr ([strip content], take start cmd @ drop stop cmd)))"

section \<open>The candidate dictionaries\<close>

text \<open>
  A dictionary whose order of keys is read later is an association list: assigning to a
  known key keeps its place, a new key goes to the end (\<open>AList.update\<close>).
\<close>

definition add_names :: "(string \<times> mudobject) list \<Rightarrow> mudobject \<Rightarrow> (string \<times> mudobject) list" where
  "add_names d obj = foldl (\<lambda>d' alias. AList.update alias obj d') (AList.update (name obj) obj d) (aliases obj)"

definition all_livings_of :: "world \<Rightarrow> (string \<times> mudobject) list" where
  "all_livings_of w = foldl add_names [] (livings w)"

definition all_items_of :: "world \<Rightarrow> (string \<times> mudobject) list" where
  "all_items_of w = foldl add_names (foldl add_names [] (items w)) (inventory w)"

section \<open>Living.search\_item\<close>

text \<open>\<open>Item.search_item(name, collection)\<close>: by name first, then by alias or title.\<close>

definition Item_search_item :: "string \<Rightarrow> mudobject list \<Rightarrow> mudobject option" where
  "Item_search_item nm collection =
     (let n = lower nm in
      case filter (\<lambda>i. name i = n) collection of
        i # _ \<Rightarrow> Some i
      | [] \<Rightarrow>
         (case filter (\<lambda>i. n \<in> set (aliases i) \<or> lower (title i) = n) collection of
            i # _ \<Rightarrow> Some i
          | [] \<Rightarrow> None))"

text \<open>
  The loop of \<open>locate_item\<close> over the containers of the inventory; an item whose
  \<open>inventory\<close> raises \<open>ActionRefused\<close> is skipped.
\<close>

fun search_containers :: "string \<Rightarrow> mudobject list \<Rightarrow> mudobject option" where
  "search_containers nm [] = None"
| "search_containers nm (container # rest) =
     (case contents container of
        None \<Rightarrow> search_containers nm rest
      | Some bag \<Rightarrow>
         (case Item_search_item nm bag of
            Some found \<Rightarrow> Some found
          | None \<Rightarrow> search_containers nm rest))"

text \<open>\<open>search_item\<close> with its default arguments, through \<open>locate_item\<close>.\<close>

definition search_item :: "world \<Rightarrow> string \<Rightarrow> error + mudobject option" where
  "search_item w nm =
     (if nm = [] then Inl ValueError
      else (case Item_search_item nm (inventory w) of
              Some found \<Rightarrow> Inr (Some found)
            | None \<Rightarrow>
               (case Item_search_item nm (items w) of
                  Some found \<Rightarrow> Inr (Some found)
                | None \<Rightarrow> Inr (search_containers nm (inventory w)))))"

section \<open>Soul.match\_previously\_parsed\<close>

text \<open>
  A call returns the lines it told the actor (\<open>player.tell\<close>) together with its result or
  its exception, so that a line told before a \<open>raise\<close> is still there.
  \<open>player.search_item(who.name) or who in player.location.livings\<close>:
\<close>

definition reachable :: "world \<Rightarrow> mudobject \<Rightarrow> error + bool" where
  "reachable w who =
     (case search_item w (name who) of
        Inl e \<Rightarrow> Inl e
      | Inr (Some found) \<Rightarrow> Inr True
      | Inr None \<Rightarrow> Inr (who \<in> set (livings w)))"

definition tell_meant :: "string \<Rightarrow> mudobject \<Rightarrow> string" where
  "tell_meant pronoun who =
     ''<dim>(By '' @ [CHR 0x27] @ pronoun @ [CHR 0x27] @ '', it is assumed you meant '' @ title who @ ''.)</>''"

definition tell_mean :: "string \<Rightarrow> mudobject \<Rightarrow> string" where
  "tell_mean pronoun who =
     ''<dim>(By '' @ [CHR 0x27] @ pronoun @ [CHR 0x27] @ '', it is assumed you mean '' @ title who @ ''.)</>''"

definition tell_mean_all :: "tables \<Rightarrow> string \<Rightarrow> mudobject list \<Rightarrow> string" where
  "tell_mean_all T pronoun matches =
     ''<dim>(By '' @ [CHR 0x27] @ pronoun @ [CHR 0x27] @ '', it is assumed you mean: ''
       @ lang_join T (map title matches) ''and'' @ ''.)''"

definition tell_mean_exit :: "string \<Rightarrow> string \<Rightarrow> string" where
  "tell_mean_exit pronoun direction =
     ''<dim>(By '' @ [CHR 0x27] @ pronoun @ [CHR 0x27] @ '', it is assumed you mean ''
       @ [CHR 0x27] @ direction @ [CHR 0x27] @ ''.)</>''"

definition no_longer_around :: "tables \<Rightarrow> mudobject \<Rightarrow> error" where
  "no_longer_around T who = ParseError (lang_capital T (subjective who) @ '' is no longer around.'')"

definition not_clear_referring :: error where
  "not_clear_referring = ParseError (''It is not clear who you'' @ [CHR 0x27] @ ''re referring to.'')"

text \<open>The \<open>for who in matches\<close> loop of the branch for "them".\<close>

fun them_check :: "tables \<Rightarrow> world \<Rightarrow> string \<Rightarrow> mudobject list \<Rightarrow> string list \<times> (error + unit)" where
  "them_check T w pronoun [] = ([], Inr ())"
| "them_check T w pronoun (who # rest) =
     (case reachable w who of
        Inl e \<Rightarrow> ([], Inl e)
      | Inr True \<Rightarrow> them_check T w pronoun rest
      | Inr False \<Rightarrow> ([tell_meant pronoun who], Inl (no_longer_around T who)))"

text \<open>The \<open>for who in self.__previously_parsed.who_order\<close> loop of the singular pronouns.\<close>

fun match_single ::
  "tables \<Rightarrow> world \<Rightarrow> string \<Rightarrow> mudobject list \<Rightarrow> string list \<times> (error + (mudobject \<times> string) list)" where
  "match_single T w pronoun [] = ([], Inl not_clear_referring)"
| "match_single T w pronoun (who # rest) =
     (case (if pronoun = ''it'' then find (\<lambda>(direction, ex). ex = who) (exits w) else None) of
        Some (direction, ex) \<Rightarrow> ([tell_mean_exit pronoun direction], Inr [(who, direction)])
      | None \<Rightarrow>
         (if pronoun = objective who then
            (case reachable w who of
               Inl e \<Rightarrow> ([], Inl e)
             | Inr True \<Rightarrow> ([tell_mean pronoun who], Inr [(who, name who)])
             | Inr False \<Rightarrow> ([tell_meant pronoun who], Inl (no_longer_around T who)))
          else match_single T w pronoun rest))"

definition match_previously_parsed ::
  "tables \<Rightarrow> world \<Rightarrow> parse_result \<Rightarrow> string \<Rightarrow> string list \<times> (error + (mudobject \<times> string) list)" where
  "match_previously_parsed T w previously_parsed pronoun =
     (if pronoun = ''them'' then
        (let matches = who_order previously_parsed in
         case them_check T w pronoun matches of
           (told, Inl e) \<Rightarrow> (told, Inl e)
         | (told, Inr u) \<Rightarrow>
             (if matches \<noteq> []
              then (told @ [tell_mean_all T pronoun matches], Inr (map (\<lambda>who. (who, name who)) matches))
              else (told, Inl not_clear_referring)))
      else match_single T w pronoun (who_order previously_parsed))"

section \<open>Soul.parse: the walk over the words\<close>

text \<open>
  The local variables the loop changes. \<open>who_plain\<close> tells that \<open>who_info\<close> has been
  rebound from the \<open>defaultdict(ParseResult.WhoInfo)\<close> to a plain \<open>dict\<close>, on which reading
  a missing key raises \<open>KeyError\<close>. A name that a field of \<open>parse_result\<close> already has
  carries a prime.
\<close>

record pstate =
  who_info' :: "(mudobject \<times> whoinfo) list"
  who_plain :: bool
  who_order' :: "mudobject list"
  who_sequence :: nat
  include_flag :: bool
  collect_message :: bool
  message' :: "string list"
  adverb' :: "string option"
  bodypart' :: "string option"
  arg_words :: "string list"
  unrecognized_words :: "string list"
  previous_word' :: "string option"

text \<open>What the head of \<open>parse\<close> has fixed when the loop starts.\<close>

record verbinfo =
  verb' :: "string option"
  message_verb :: bool
  external_verb :: bool
  qualifier' :: "string option"

text \<open>The truth value of an optional string: \<open>None\<close> and the empty string are falsy.\<close>

definition truthy :: "string option \<Rightarrow> bool" where
  "truthy x = (case x of None \<Rightarrow> False | Some s \<Rightarrow> s \<noteq> [])"

text \<open>
  \<open>who_info[who].sequence = who_sequence; who_info[who].previous_word = previous_word;
  who_sequence += 1; who_order.append(who)\<close>.
\<close>

definition add_who :: "pstate \<Rightarrow> mudobject \<Rightarrow> error + pstate" where
  "add_who st who =
     (if who_plain st \<and> map_of (who_info' st) who = None then Inl KeyError
      else Inr (st\<lparr>who_info' := AList.update who
                      \<lparr>sequence = who_sequence st, previous_word = previous_word' st\<rparr> (who_info' st),
                   who_sequence := who_sequence st + 1,
                   who_order' := who_order' st @ [who]\<rparr>))"

text \<open>\<open>del who_info[who]; who_order.remove(who)\<close>, as the pronoun branch runs it.\<close>

definition del_who :: "pstate \<Rightarrow> mudobject \<Rightarrow> error + pstate" where
  "del_who st who =
     (if map_of (who_info' st) who = None then Inl KeyError
      else if who \<notin> set (who_order' st) then Inl ValueError
      else Inr (st\<lparr>who_info' := AList.delete who (who_info' st),
                   who_order' := remove1 who (who_order' st)\<rparr>))"

text \<open>The same under the guard \<open>elif who in who_info\<close> of the other branches.\<close>

definition discard_who :: "pstate \<Rightarrow> mudobject \<Rightarrow> error + pstate" where
  "discard_who st who = (if map_of (who_info' st) who = None then Inr st else del_who st who)"

definition mention :: "pstate \<Rightarrow> mudobject \<Rightarrow> error + pstate" where
  "mention st who = (if include_flag st then add_who st who else discard_who st who)"

text \<open>The \<open>for who, name in who_list\<close> loop of the pronoun branch.\<close>

fun pronoun_targets :: "pstate \<Rightarrow> (mudobject \<times> string) list \<Rightarrow> error + pstate" where
  "pronoun_targets st [] = Inr st"
| "pronoun_targets st ((who, nm) # rest) =
     (case (if include_flag st then add_who st who else del_who st who) of
        Inl e \<Rightarrow> Inl e
      | Inr st' \<Rightarrow> pronoun_targets (st'\<lparr>arg_words := arg_words st' @ [nm]\<rparr>) rest)"

text \<open>The \<open>for living in player.location.livings\<close> loop of the branch for "everyone".\<close>

fun add_everyone :: "mudobject \<Rightarrow> pstate \<Rightarrow> mudobject list \<Rightarrow> error + pstate" where
  "add_everyone pl st [] = Inr st"
| "add_everyone pl st (living # rest) =
     (if living \<noteq> pl
      then (case add_who st living of Inl e \<Rightarrow> Inl e | Inr st' \<Rightarrow> add_everyone pl st' rest)
      else add_everyone pl st rest)"

definition both_error :: "string \<Rightarrow> string \<Rightarrow> error" where
  "both_error a b = ParseError (''You can'' @ [CHR 0x27] @ ''t do that both '' @ a @ '' and '' @ b @ ''.'')"

definition isupper_char :: "char \<Rightarrow> bool" where
  "isupper_char c =
     (let n = (of_char c :: nat) in (65 \<le> n \<and> n \<le> 90) \<or> (192 \<le> n \<and> n \<le> 222 \<and> n \<noteq> 215))"

text \<open>
  The tail of the loop body, from \<open>if word not in self._skip_words\<close> to
  \<open>previous_word = word\<close>: the word matched nothing.
\<close>

definition prefix_suggestion :: "world \<Rightarrow> string \<Rightarrow> string option" where
  "prefix_suggestion w word =
     (case find (\<lambda>nm. startswith nm word) (map fst (all_livings_of w)) of
        Some nm \<Rightarrow> Some nm
      | None \<Rightarrow> find (\<lambda>nm. startswith nm word) (map fst (all_items_of w)))"

definition unclear_error :: "tables \<Rightarrow> string \<Rightarrow> error" where
  "unclear_error T word =
     (if VERBS T word \<noteq> None \<or> ACTION_QUALIFIERS T word \<noteq> None \<or> BODY_PARTS T word \<noteq> None
      then ParseError (''The word '' @ word @ '' makes no sense at that location.'')
      else (case word of
              [] \<Rightarrow> IndexError
            | c # cs \<Rightarrow>
               ParseError (''It'' @ [CHR 0x27] @ ''s not clear what you mean by '' @ [CHR 0x27] @ word
                 @ [CHR 0x27] @ ''.''
                 @ (if isupper_char c
                    then '' Just type in lowercase ('' @ [CHR 0x27] @ lower word @ [CHR 0x27] @ '').''
                    else []))))"

definition unrecognized_word ::
  "tables \<Rightarrow> world \<Rightarrow> verbinfo \<Rightarrow> string list \<Rightarrow> string \<Rightarrow> pstate \<Rightarrow> error + pstate" where
  "unrecognized_word T w vi words word st =
     (if word \<in> skip_words then Inr (st\<lparr>previous_word' := Some word\<rparr>)
      else
        (case (if who_order' st = [] then prefix_suggestion w word else None) of
           Some nm \<Rightarrow> Inl (ParseError (''Perhaps you meant '' @ nm @ ''?''))
         | None \<Rightarrow>
            (if external_verb vi
             then Inr (st\<lparr>arg_words := arg_words st @ [word],
                          unrecognized_words := unrecognized_words st @ [word],
                          previous_word' := Some word\<rparr>)
             else if \<not> truthy (verb' vi)
             then Inl (UnknownVerbException word (Some words) (qualifier' vi))
             else
               (case adverb_by_prefix T word of
                  [] \<Rightarrow> Inl (unclear_error T word)
                | [a] \<Rightarrow>
                   (case adverb' st of
                      Some old \<Rightarrow>
                        (if old \<noteq> [] then Inl (both_error old a)
                         else Inr (st\<lparr>adverb' := Some a, arg_words := arg_words st @ [a],
                                      previous_word' := Some a\<rparr>))
                    | None \<Rightarrow> Inr (st\<lparr>adverb' := Some a, arg_words := arg_words st @ [a],
                                      previous_word' := Some a\<rparr>))
                | a # b # others \<Rightarrow>
                   Inl (ParseError (''What adverb did you mean: ''
                          @ lang_join T (a # b # others) ''or'' @ ''?''))))))"

text \<open>
  The end that the branches for a target share: \<open>arg_words.append(name)\<close>,
  \<open>previous_word = None\<close>, \<open>continue\<close>, after \<open>count\<close> further words have been taken.
\<close>

definition finish_target :: "error + pstate \<Rightarrow> string \<Rightarrow> nat \<Rightarrow> error + (pstate \<times> nat)" where
  "finish_target r nm count =
     (case r of
        Inl e \<Rightarrow> Inl e
      | Inr st' \<Rightarrow> Inr (st'\<lparr>arg_words := arg_words st' @ [nm], previous_word' := None\<rparr>, count))"

text \<open>
  The test \<open>if exit:\<close> (\<open>if item:\<close>) on a result of \<open>check_name_with_spaces\<close>: a match
  has an object and its name.
\<close>

definition found :: "mudobject option \<times> string option \<times> nat \<Rightarrow> (mudobject \<times> string \<times> nat) option" where
  "found r = (case r of (Some x, Some nm, wordcount) \<Rightarrow> Some (x, nm, wordcount) | other \<Rightarrow> None)"

text \<open>
  The loop body from \<open>if word in all_livings\<close> on, for the word at \<open>index\<close> (\<open>word\<close> is
  that word after \<open>rstrip(",")\<close>). The result is the new state and the number of further
  words that \<open>next(words_enumerator)\<close> consumes.
\<close>

definition parse_name_word ::
  "tables \<Rightarrow> world \<Rightarrow> verbinfo \<Rightarrow> string list \<Rightarrow> nat \<Rightarrow> string \<Rightarrow> pstate \<Rightarrow> error + (pstate \<times> nat)" where
  "parse_name_word T w vi words index word st =
     (case map_of (all_livings_of w) word of
        Some living \<Rightarrow> finish_target (mention st living) word 0
      | None \<Rightarrow>
     (case map_of (all_items_of w) word of
        Some item \<Rightarrow> finish_target (mention st item) word 0
      | None \<Rightarrow>
     (case check_name_with_spaces words index (map_of (exits w)) Map.empty of
        Inl e \<Rightarrow> Inl e
      | Inr exit_match \<Rightarrow>
     (case found exit_match of
        Some (ex, exit_name, wordcount) \<Rightarrow> finish_target (add_who st ex) exit_name (wordcount - 1)
      | None \<Rightarrow>
     (case check_name_with_spaces words index (map_of (all_livings_of w)) (map_of (all_items_of w)) of
        Inl e \<Rightarrow> Inl e
      | Inr name_match \<Rightarrow>
     (case found name_match of
        Some (item, full_name, wordcount) \<Rightarrow> finish_target (mention st item) full_name (wordcount - 1)
      | None \<Rightarrow>
        (if message_verb vi \<and> message' st = [] then
           Inr (st\<lparr>collect_message := True, message' := message' st @ [word],
                   arg_words := arg_words st @ [word]\<rparr>, 0)
         else (case unrecognized_word T w vi words word st of
                 Inl e \<Rightarrow> Inl e
               | Inr st' \<Rightarrow> Inr (st', 0)))))))))"

text \<open>
  \<open>bodypart = word\<close> and \<open>adverb = word\<close>, each after the test that none is set yet;
  neither changes \<open>previous_word\<close>.
\<close>

definition set_bodypart :: "tables \<Rightarrow> string \<Rightarrow> pstate \<Rightarrow> error + (pstate \<times> nat)" where
  "set_bodypart T word st =
     (case (case bodypart' st of None \<Rightarrow> None | Some old \<Rightarrow> if old \<noteq> [] then Some old else None) of
        Some old \<Rightarrow>
          (case (BODY_PARTS T old, BODY_PARTS T word) of
             (Some a, Some b) \<Rightarrow> Inl (both_error a b)
           | other \<Rightarrow> Inl KeyError)
      | None \<Rightarrow> Inr (st\<lparr>bodypart' := Some word, arg_words := arg_words st @ [word]\<rparr>, 0))"

definition set_adverb :: "string \<Rightarrow> pstate \<Rightarrow> error + (pstate \<times> nat)" where
  "set_adverb word st =
     (case (case adverb' st of None \<Rightarrow> None | Some old \<Rightarrow> if old \<noteq> [] then Some old else None) of
        Some old \<Rightarrow> Inl (both_error old word)
      | None \<Rightarrow> Inr (st\<lparr>adverb' := Some word, arg_words := arg_words st @ [word]\<rparr>, 0))"

text \<open>The branch for "everyone", "everybody" and "all".\<close>

definition everyone_word :: "world \<Rightarrow> string \<Rightarrow> pstate \<Rightarrow> error + (pstate \<times> nat)" where
  "everyone_word w word st =
     (if include_flag st then
        (if all_livings_of w = [] then Inl (ParseError ''There is nobody here.'')
         else finish_target (add_everyone (player w) st (livings w)) word 0)
      else Inr (st\<lparr>who_info' := [], who_plain := True, who_order' := [], who_sequence := 0,
                   arg_words := arg_words st @ [word], previous_word' := None\<rparr>, 0))"

text \<open>The loop body from the test for "me" on, in the order of the source.\<close>

definition parse_other_word ::
  "tables \<Rightarrow> world \<Rightarrow> verbinfo \<Rightarrow> string list \<Rightarrow> nat \<Rightarrow> string \<Rightarrow> pstate \<Rightarrow> error + (pstate \<times> nat)" where
  "parse_other_word T w vi words index word st =
     (if word \<in> {''me'', ''myself'', ''self''} then finish_target (mention st (player w)) word 0
      else if BODY_PARTS T word \<noteq> None then set_bodypart T word st
      else if word \<in> {''everyone'', ''everybody'', ''all''} then everyone_word w word st
      else if word = ''everything'' then
        Inl (ParseError (''You can'' @ [CHR 0x27]
               @ ''t do something to everything around you, be more specific.''))
      else if word \<in> {''except'', ''but''} then
        Inr (st\<lparr>include_flag := \<not> include_flag st, arg_words := arg_words st @ [word]\<rparr>, 0)
      else if word \<in> ADVERBS T then set_adverb word st
      else parse_name_word T w vi words index word st)"

text \<open>
  The whole loop body. \<open>previously_parsed\<close> is \<open>self.__previously_parsed\<close>. Only the
  pronoun branch tells the actor anything.
\<close>

definition parse_word ::
  "tables \<Rightarrow> world \<Rightarrow> parse_result option \<Rightarrow> verbinfo \<Rightarrow> string list \<Rightarrow> nat \<Rightarrow> string \<Rightarrow> pstate
     \<Rightarrow> string list \<times> (error + (pstate \<times> nat))" where
  "parse_word T w previously_parsed vi words index word0 st =
     (if collect_message st then
        ([], Inr (st\<lparr>message' := message' st @ [word0], arg_words := arg_words st @ [word0],
                     previous_word' := Some word0\<rparr>, 0))
      else
        (let word = (if \<not> message_verb vi then rstrip_comma word0 else word0) in
         if word \<in> {''them'', ''him'', ''her'', ''it''} then
           (case previously_parsed of
              None \<Rightarrow> ([], Inl (ParseError ''It is not clear who you mean.''))
            | Some pp \<Rightarrow>
               (case match_previously_parsed T w pp word of
                  (told, Inl e) \<Rightarrow> (told, Inl e)
                | (told, Inr who_list) \<Rightarrow>
                   (case pronoun_targets st who_list of
                      Inl e \<Rightarrow> (told, Inl e)
                    | Inr st' \<Rightarrow> (told, Inr (st'\<lparr>previous_word' := None\<rparr>, 0)))))
         else ([], parse_other_word T w vi words index word st)))"

text \<open>
  \<open>for index, word in words_enumerator\<close>: \<open>skip\<close> counts the words that the body has
  already taken from the enumerator.
\<close>

fun parse_words ::
  "tables \<Rightarrow> world \<Rightarrow> parse_result option \<Rightarrow> verbinfo \<Rightarrow> string list \<Rightarrow> nat \<Rightarrow> nat \<Rightarrow> string list
     \<Rightarrow> pstate \<Rightarrow> string list \<times> (error + pstate)" where
  "parse_words T w previously_parsed vi words index skip [] st = ([], Inr st)"
| "parse_words T w previously_parsed vi words index skip (word # rest) st =
     (if 0 < skip then parse_words T w previously_parsed vi words (Suc index) (skip - 1) rest st
      else
        (case parse_word T w previously_parsed vi words index word st of
           (told, Inl e) \<Rightarrow> (told, Inl e)
         | (told, Inr (st', k)) \<Rightarrow>
            (case parse_words T w previously_parsed vi words (Suc index) k rest st' of
               (told', r) \<Rightarrow> (told @ told', r))))"

section \<open>Soul.parse\<close>

text \<open>
  Modelled from the spec: the constructor of \<open>ParseResult\<close> (tale/parseresult.py is not
  among the sources). \<open>ParseResult v\<close> is the object for the verb alone: a field that the
  caller leaves out is empty. \<open>ParseResult_init\<close> is what the constructor does with the
  arguments it is given: when \<open>who_info\<close> is empty and \<open>who_order\<close> is not, it fills
  \<open>who_info\<close> from \<open>who_order\<close>, \<open>who_info[who] = WhoInfo(sequence)\<close> for each target
  with its position in \<open>who_order\<close>, and no previous word.
\<close>

definition ParseResult :: "string \<Rightarrow> parse_result" where
  "ParseResult v =
     \<lparr>verb = v, who_info = [], who_order = [], adverb = None, message = [], bodypart = None,
      qualifier = None, args = [], unrecognized = [], unparsed = []\<rparr>"

definition refill :: "mudobject list \<Rightarrow> (mudobject \<times> whoinfo) list" where
  "refill order =
     foldl (\<lambda>d (i, who). AList.update who \<lparr>sequence = i, previous_word = None\<rparr> d) []
       (enumerate 0 order)"

definition ParseResult_init :: "parse_result \<Rightarrow> parse_result" where
  "ParseResult_init r =
     (if who_info r = [] \<and> who_order r \<noteq> [] then r\<lparr>who_info := refill (who_order r)\<rparr> else r)"

text \<open>
  The head of \<open>parse\<close> after the qualifier and the skip word: the verb is an external verb,
  a soul verb, or the words name an exit of the location (which raises \<open>NonSoulVerb\<close>).
  The result is what the loop needs, the remaining words and \<open>unparsed\<close>.
\<close>

definition identify_verb ::
  "tables \<Rightarrow> world \<Rightarrow> string set \<Rightarrow> string option \<Rightarrow> string \<Rightarrow> string list \<Rightarrow> string
     \<Rightarrow> error + (verbinfo \<times> string list \<times> string)" where
  "identify_verb T w external_verbs qual first rest unparsed0 =
     (if first \<in> external_verbs then
        Inr (\<lparr>verb' = Some first, message_verb = False, external_verb = True, qualifier' = qual\<rparr>,
             rest, lstrip (drop (length first) unparsed0))
      else
        (case VERBS T first of
           Some vd \<Rightarrow>
             (case verbdata_get vd 2 of
                Inl e \<Rightarrow> Inl e
              | Inr template \<Rightarrow>
                  Inr (\<lparr>verb' = Some first,
                        message_verb = (contains template (newline # ''MSG'')
                                        \<or> contains template (newline # ''WHAT'')),
                        external_verb = False, qualifier' = qual\<rparr>,
                       rest, lstrip (drop (length first) unparsed0)))
         | None \<Rightarrow>
             (if exits w \<noteq> [] then
                (let move_action = (if first \<in> MOVEMENT_VERBS T then Some first else None);
                     words = (if first \<in> MOVEMENT_VERBS T then rest else first # rest)
                 in if words = [] then Inl (ParseError (lang_capital T first @ '' where?''))
                    else
                      (case check_name_with_spaces words 0 (map_of (exits w)) Map.empty of
                         Inl e \<Rightarrow> Inl e
                       | Inr (Some ex, Some exit_name, wordcount) \<Rightarrow>
                           (if wordcount \<noteq> length words
                            then Inl (ParseError ''What do you want to do with that?'')
                            else Inl (NonSoulVerb
                                   (ParseResult_init
                                      ((ParseResult exit_name)
                                         \<lparr>who_order := [ex], qualifier := qual,
                                          unparsed := lstrip (drop (length exit_name) unparsed0)\<rparr>))))
                       | Inr no_exit \<Rightarrow>
                           (case move_action of
                              Some m \<Rightarrow>
                                Inl (ParseError (''You can'' @ [CHR 0x27] @ ''t '' @ m @ '' there.''))
                            | None \<Rightarrow>
                                Inr (\<lparr>verb' = None, message_verb = False, external_verb = False,
                                      qualifier' = qual\<rparr>, first # rest, unparsed0))))
              else Inr (\<lparr>verb' = None, message_verb = False, external_verb = False,
                         qualifier' = qual\<rparr>, first # rest, unparsed0))))"

definition initial_pstate :: "string list \<Rightarrow> pstate" where
  "initial_pstate msg =
     \<lparr>who_info' = [], who_plain = False, who_order' = [], who_sequence = 0, include_flag = True,
      collect_message = False, message' = msg, adverb' = None, bodypart' = None, arg_words = [],
      unrecognized_words = [], previous_word' = None\<rparr>"

text \<open>
  The end of \<open>parse\<close>, after the loop: the default verb, and the result, which the
  constructor of \<open>ParseResult\<close> builds from the variables of the loop.
\<close>

definition finish_parse :: "verbinfo \<Rightarrow> string list \<Rightarrow> string \<Rightarrow> pstate \<Rightarrow> error + parse_result" where
  "finish_parse vi words unparsed0 st =
     (case (case verb' vi of
              Some v \<Rightarrow> (if v \<noteq> [] then Some v else None)
            | None \<Rightarrow> None) of
        Some v \<Rightarrow>
          Inr (ParseResult_init
            \<lparr>verb = v, who_info = who_info' st, who_order = who_order' st, adverb = adverb' st,
               message = join_space (message' st), bodypart = bodypart' st,
               qualifier = qualifier' vi, args = arg_words st,
               unrecognized = unrecognized_words st, unparsed = unparsed0\<rparr>)
      | None \<Rightarrow>
          (case who_order' st of
             [only] \<Rightarrow>
               Inr (ParseResult_init
                 \<lparr>verb = (case default_verb only of Some dv \<Rightarrow> dv | None \<Rightarrow> ''examine''),
                    who_info = who_info' st, who_order = who_order' st, adverb = adverb' st,
                    message = join_space (message' st), bodypart = bodypart' st,
                    qualifier = qualifier' vi, args = arg_words st,
                    unrecognized = unrecognized_words st, unparsed = unparsed0\<rparr>)
           | other \<Rightarrow>
               (case words of
                  [] \<Rightarrow> Inl IndexError
                | first # rest \<Rightarrow> Inl (UnknownVerbException first (Some words) (qualifier' vi)))))"

text \<open>
  \<open>Soul.parse(player, cmd, external_verbs)\<close>, with \<open>self.__previously_parsed\<close> as an argument:
  the function reads it and never assigns it. The result is the lines told to the actor
  and the \<open>ParseResult\<close> or the exception.
\<close>

definition Soul_parse ::
  "tables \<Rightarrow> world \<Rightarrow> parse_result option \<Rightarrow> string \<Rightarrow> string set
     \<Rightarrow> string list \<times> (error + parse_result)" where
  "Soul_parse T w previously_parsed cmd external_verbs =
     (case extract_message cmd of
        Inl e \<Rightarrow> ([], Inl e)
      | Inr (msg, cmd1) \<Rightarrow>
         (if cmd1 = [] then ([], Inl (ParseError ''What?''))
          else
            (case split cmd1 of
               [] \<Rightarrow> ([], Inl IndexError)
             | w0 # ws0 \<Rightarrow>
                (let qual = (if ACTION_QUALIFIERS T w0 \<noteq> None
                             then Some (if w0 = ''dont'' then ''don'' @ [CHR 0x27] @ ''t'' else w0)
                             else None);
                     words1 = (if ACTION_QUALIFIERS T w0 \<noteq> None then ws0 else w0 # ws0);
                     unparsed1 = (if ACTION_QUALIFIERS T w0 \<noteq> None
                                  then lstrip (drop (length w0) cmd) else cmd);
                     skipping = (case words1 of [] \<Rightarrow> False | sw # r \<Rightarrow> sw \<in> skip_words);
                     words2 = (if skipping then tl words1 else words1);
                     unparsed2 = (if skipping then lstrip (drop (length (hd words1)) unparsed1)
                                  else unparsed1)
                 in case words2 of
                      [] \<Rightarrow> ([], Inl (ParseError ''What?''))
                    | first # rest \<Rightarrow>
                       (case identify_verb T w external_verbs qual first rest unparsed2 of
                          Inl e \<Rightarrow> ([], Inl e)
                        | Inr (vi, words, unparsed3) \<Rightarrow>
                           (case parse_words T w previously_parsed vi words 0 0 words
                                   (initial_pstate msg) of
                              (told, Inl e) \<Rightarrow> (told, Inl e)
                            | (told, Inr st) \<Rightarrow> (told, finish_parse vi words unparsed3 st)))))))"

section \<open>Living.parse and the memory cell\<close>

text \<open>
  The attributes of the actor that \<open>Living.parse\<close> and \<open>remember_previous_parse\<close> assign:
  \<open>previous_commandline\<close>, \<open>_previous_parse\<close>, the cell \<open>soul.__previously_parsed\<close>, and the
  lines told to the actor so far.
\<close>

record living_state =
  previous_commandline :: "string option"
  previous_parse :: "parse_result option"
  soul_previously_parsed :: "parse_result option"
  told :: "string list"

definition validate_socialize_targets :: "parse_result \<Rightarrow> error + unit" where
  "validate_socialize_targets parsed =
     (if list_ex (\<lambda>who. kind who = Exit) (map fst (who_info parsed))
      then Inl (ParseError (''That doesn'' @ [CHR 0x27] @ ''t make much sense.''))
      else Inr ())"

text \<open>\<open>Living.parse\<close> from \<open>self.previous_commandline = commandline\<close> on.\<close>

definition parse_commandline ::
  "tables \<Rightarrow> world \<Rightarrow> living_state \<Rightarrow> string \<Rightarrow> string set \<Rightarrow> living_state \<times> (error + parse_result)" where
  "parse_commandline T w ls commandline external_verbs =
     (let ls1 = ls\<lparr>previous_commandline := Some commandline\<rparr> in
      case Soul_parse T w (soul_previously_parsed ls1) commandline external_verbs of
        (lines, Inl e) \<Rightarrow> (ls1\<lparr>told := told ls1 @ lines\<rparr>, Inl e)
      | (lines, Inr parsed) \<Rightarrow>
         (let ls2 = ls1\<lparr>told := told ls1 @ lines, previous_parse := Some parsed\<rparr> in
          if external_verbs \<noteq> {} \<and> verb parsed \<in> external_verbs then (ls2, Inl (NonSoulVerb parsed))
          else if verb parsed \<notin> NONLIVING_OK_VERBS T
                  \<and> \<not> list_all (\<lambda>who. kind who = Living) (who_order parsed)
          then (ls2, Inl (NonSoulVerb parsed))
          else (case validate_socialize_targets parsed of
                  Inl e \<Rightarrow> (ls2, Inl e)
                | Inr u \<Rightarrow> (ls2, Inr parsed))))"

definition Living_parse ::
  "tables \<Rightarrow> world \<Rightarrow> living_state \<Rightarrow> string \<Rightarrow> string set \<Rightarrow> living_state \<times> (error + parse_result)" where
  "Living_parse T w ls commandline external_verbs =
     (if commandline = ''again'' then
        (case previous_commandline ls of
           Some previous \<Rightarrow>
             (if previous \<noteq> [] then
                parse_commandline T w (ls\<lparr>told := told ls @ [''<dim>(repeat: '' @ previous @ '')</>'']\<rparr>)
                  previous external_verbs
              else (ls, Inl (ActionRefused (''Can'' @ [CHR 0x27] @ ''t repeat your previous action.''))))
         | None \<Rightarrow> (ls, Inl (ActionRefused (''Can'' @ [CHR 0x27] @ ''t repeat your previous action.''))))
      else parse_commandline T w ls commandline external_verbs)"

text \<open>\<open>Living.remember_previous_parse\<close>, which calls \<open>Soul.remember_previous_parse\<close>.\<close>

definition remember_previous_parse :: "living_state \<Rightarrow> living_state" where
  "remember_previous_parse ls = ls\<lparr>soul_previously_parsed := previous_parse ls\<rparr>"

definition new_living :: living_state where
  "new_living = \<lparr>previous_commandline = None, previous_parse = None, soul_previously_parsed = None, told = []\<rparr>"

section \<open>Soul.process\_verb\_parsed\<close>

text \<open>A placeholder of a template: a space, a newline and the marker.\<close>

definition ph :: "string \<Rightarrow> string" where
  "ph marker = '' '' @ [newline] @ marker"

text \<open>\<open>" " + string.lstrip(" \t") if string else ""\<close>.\<close>

definition spacify :: "string option \<Rightarrow> string" where
  "spacify x =
     (case x of
        None \<Rightarrow> []
      | Some s \<Rightarrow> (if s = [] then []
                   else '' '' @ dropWhile (\<lambda>c. c = CHR '' '' \<or> c = CHR 0x09) s))"

definition who_replacement :: "mudobject \<Rightarrow> mudobject \<Rightarrow> mudobject option \<Rightarrow> string" where
  "who_replacement actor target observer =
     (if target = actor then
        (if Some actor = observer then ''yourself'' else objective actor @ ''self'')
      else
        (if Some target = observer then ''you'' else title target))"

definition poss_replacement :: "tables \<Rightarrow> mudobject \<Rightarrow> mudobject \<Rightarrow> mudobject option \<Rightarrow> string" where
  "poss_replacement T actor target observer =
     (if target = actor then
        (if Some actor = observer then ''your own'' else possessive actor @ '' own'')
      else
        (if Some target = observer then ''your'' else lang_possessive T (title target)))"

definition check_person :: "string \<Rightarrow> mudobject list \<Rightarrow> bool" where
  "check_person action who =
     (\<not> (who = [] \<and> (contains action (newline # ''WHO'') \<or> contains action (newline # ''POSS''))))"

text \<open>
  \<open>template % arg\<close> with one string argument. Only the conversions \<open>%s\<close> and \<open>%%\<close> are
  followed; any other one, a template without \<open>%s\<close> and a second \<open>%s\<close> are reported as
  \<open>TypeError\<close>. The flag tells that the argument has been used.
\<close>

fun percent :: "string \<Rightarrow> bool \<Rightarrow> string \<Rightarrow> error + string" where
  "percent [] used arg = (if used then Inr [] else Inl TypeError)"
| "percent [c] used arg = (if c = CHR ''%'' \<or> \<not> used then Inl TypeError else Inr [c])"
| "percent (c # d # r) used arg =
     (if c = CHR ''%'' then
        (if d = CHR ''%'' then
           (case percent r used arg of Inl e \<Rightarrow> Inl e | Inr t \<Rightarrow> Inr (CHR ''%'' # t))
         else if d = CHR ''s'' \<and> \<not> used then
           (case percent r True arg of Inl e \<Rightarrow> Inl e | Inr t \<Rightarrow> Inr (arg @ t))
         else Inl TypeError)
      else (case percent (d # r) used arg of Inl e \<Rightarrow> Inl e | Inr t \<Rightarrow> Inr (c # t)))"

text \<open>The inner function \<open>result_messages(action, action_room)\<close>.\<close>

definition result_messages ::
  "tables \<Rightarrow> mudobject \<Rightarrow> parse_result \<Rightarrow> string \<Rightarrow> string
     \<Rightarrow> error + (mudobject set \<times> string \<times> string \<times> string)" where
  "result_messages T pl parsed action0 action_room0 =
     (case (case qualifier parsed of
              None \<Rightarrow> Inr (strip action0, strip action_room0)
            | Some q \<Rightarrow>
               (if q = [] then Inr (strip action0, strip action_room0)
                else
                  (case ACTION_QUALIFIERS T q of
                     None \<Rightarrow> Inl KeyError
                   | Some (qual_action, qual_room, use_room_default) \<Rightarrow>
                      (case percent qual_room False
                              (if use_room_default then strip action_room0 else strip action0) of
                         Inl e \<Rightarrow> Inl e
                       | Inr action_room \<Rightarrow>
                          (case percent qual_action False (strip action0) of
                             Inl e \<Rightarrow> Inl e
                           | Inr action \<Rightarrow> Inr (action, action_room)))))) of
        Inl e \<Rightarrow> Inl e
      | Inr (action, action_room) \<Rightarrow>
         (let targets = who_order parsed;
              player_msg1 =
                replace (ph ''MY'') '' your''
                  (replace (ph ''YOUR'') '' your''
                    (replace (ph ''WHO'')
                       ('' '' @ lang_join T (map (\<lambda>target. who_replacement pl target (Some pl)) targets) ''and'')
                       action));
              room_msg1 =
                replace (ph ''MY'') ('' '' @ objective pl)
                  (replace (ph ''YOUR'') ('' '' @ possessive pl)
                    (replace (ph ''WHO'')
                       ('' '' @ lang_join T (map (\<lambda>target. who_replacement pl target None) targets) ''and'')
                       action_room));
              target_msg1 =
                replace (ph ''MY'') ('' '' @ objective pl)
                  (replace (ph ''SUBJ'') '' you''
                    (replace (ph ''IS'') '' are''
                      (replace (ph ''POSS'') '' your''
                        (replace (ph ''YOUR'') ('' '' @ possessive pl)
                          (replace (ph ''WHO'') '' you'' action_room)))));
              is_word = (case targets of [only] \<Rightarrow> '' is'' | other \<Rightarrow> '' are'');
              subj_word = (case targets of [only] \<Rightarrow> '' '' @ subjective only | other \<Rightarrow> '' they'');
              poss_player =
                (case targets of
                   [only] \<Rightarrow> '' '' @ poss_replacement T pl only (Some pl)
                 | other \<Rightarrow>
                     '' '' @ lang_possessive T
                       (lang_join T (map (\<lambda>living. poss_replacement T pl living (Some pl)) targets) ''and''));
              poss_room =
                (case targets of
                   [only] \<Rightarrow> '' '' @ poss_replacement T pl only None
                 | other \<Rightarrow>
                     '' '' @ lang_possessive T
                       (lang_join T (map (\<lambda>living. poss_replacement T pl living None) targets) ''and''));
              player_msg2 =
                replace (ph ''POSS'') poss_player
                  (replace (ph ''SUBJ'') subj_word (replace (ph ''IS'') is_word player_msg1));
              room_msg2 =
                replace (ph ''POSS'') poss_room
                  (replace (ph ''SUBJ'') subj_word (replace (ph ''IS'') is_word room_msg1))
          in Inr (set (map fst (who_info parsed)) - {pl},
                  lang_fullstop T (''You '' @ player_msg2),
                  lang_capital T (lang_fullstop T (title pl @ '' '' @ room_msg2)),
                  lang_capital T (lang_fullstop T (title pl @ '' '' @ target_msg1)))))"

text \<open>
  The adverb, message and where-clause that \<open>process_verb_parsed\<close> works out before it
  looks at the kind of the verb: \<open>(message, msg, how, where)\<close>.
\<close>

definition verb_slots ::
  "tables \<Rightarrow> verbdata \<Rightarrow> parse_result \<Rightarrow> error + (string \<times> string \<times> string \<times> string)" where
  "verb_slots T vd parsed =
     (let dflt = (case defaults vd of None \<Rightarrow> [] | Some d \<Rightarrow> d);
          message0 = (if message parsed = [] \<and> 1 < length dflt then dflt ! 1 else Some (message parsed));
          msgs = (case message0 of
                    None \<Rightarrow> ([], [])
                  | Some m \<Rightarrow>
                      (if m = [] then ([], [])
                       else if startswith m [CHR 0x27] then (spacify (Some (tl m)), spacify (Some (tl m)))
                       else ('' '' @ m, '' '' @ [CHR 0x27] @ m @ [CHR 0x27])));
          adverb0 = (if \<not> truthy (adverb parsed)
                     then (if dflt \<noteq> [] then dflt ! 0 else Some [])
                     else adverb parsed)
      in case (if truthy (bodypart parsed) then
                 (case bodypart parsed of
                    None \<Rightarrow> Inr []
                  | Some b \<Rightarrow> (case BODY_PARTS T b of None \<Rightarrow> Inl KeyError | Some d \<Rightarrow> Inr ('' '' @ d)))
               else if 2 < length dflt \<and> truthy (dflt ! 2) then
                 (case dflt ! 2 of None \<Rightarrow> Inr [] | Some d \<Rightarrow> Inr ('' '' @ d))
               else Inr []) of
           Inl e \<Rightarrow> Inl e
         | Inr where_clause \<Rightarrow> Inr (fst msgs, snd msgs, spacify adverb0, where_clause))"

text \<open>The substitutions of the branches for \<open>DEUX\<close> and \<open>QUAD\<close>.\<close>

definition fill_slots :: "string \<Rightarrow> string \<Rightarrow> string \<Rightarrow> string \<Rightarrow> string \<Rightarrow> string" where
  "fill_slots msg_what msg_quoted how where_clause action =
     replace (ph ''HOW'') how
       (replace (ph ''MSG'') msg_quoted
         (replace (ph ''WHAT'') msg_what
           (replace (ph ''WHERE'') where_clause action)))"

text \<open>
  The action string of the kinds that share the end of the function; \<open>DEUX\<close> and \<open>QUAD\<close>
  have returned before and never reach it.
\<close>

definition simple_action :: "verbdata \<Rightarrow> parse_result \<Rightarrow> error + string" where
  "simple_action vd parsed =
     (case vtype vd of
        DEFA \<Rightarrow> Inr (verb parsed @ ''$'' @ ph ''HOW'' @ ph ''AT'')
      | PREV \<Rightarrow> (case verbdata_get vd 2 of
                   Inl e \<Rightarrow> Inl e
                 | Inr t \<Rightarrow> Inr (verb parsed @ ''$'' @ spacify (Some t) @ ph ''WHO'' @ ph ''HOW''))
      | PHYS \<Rightarrow> (case verbdata_get vd 2 of
                   Inl e \<Rightarrow> Inl e
                 | Inr t \<Rightarrow> Inr (verb parsed @ ''$'' @ spacify (Some t) @ ph ''WHO'' @ ph ''HOW''
                                  @ ph ''WHERE''))
      | SHRT \<Rightarrow> (case verbdata_get vd 2 of
                   Inl e \<Rightarrow> Inl e
                 | Inr t \<Rightarrow> Inr (verb parsed @ ''$'' @ spacify (Some t) @ ph ''HOW''))
      | PERS \<Rightarrow> (if who_order parsed \<noteq> [] then verbdata_get vd 3 else verbdata_get vd 2)
      | SIMP \<Rightarrow> verbdata_get vd 2
      | FULL \<Rightarrow> Inl (TaleError ''vtype verbdefs.FULL'')
      | InvalidType t \<Rightarrow> Inl (TaleError (''invalid vtype '' @ t))
      | other \<Rightarrow> Inl (TaleError ''unreachable''))"

definition needs_person :: "string \<Rightarrow> error" where
  "needs_person v = ParseError (''The verb '' @ v @ '' needs a person.'')"

definition process_verb_parsed ::
  "tables \<Rightarrow> mudobject option \<Rightarrow> parse_result
     \<Rightarrow> error + (mudobject set \<times> string \<times> string \<times> string)" where
  "process_verb_parsed T actor parsed =
     (case actor of
        None \<Rightarrow> Inl (TaleError ''no player in process_verb_parsed'')
      | Some pl \<Rightarrow>
     (case VERBS T (verb parsed) of
        None \<Rightarrow> Inl (UnknownVerbException (verb parsed) None (qualifier parsed))
      | Some vd \<Rightarrow>
     (case verb_slots T vd parsed of
        Inl e \<Rightarrow> Inl e
      | Inr (msg_what, msg_quoted, how, where_clause) \<Rightarrow>
         (if vtype vd = DEUX then
            (case verbdata_get vd 2 of
               Inl e \<Rightarrow> Inl e
             | Inr action \<Rightarrow>
            (case verbdata_get vd 3 of
               Inl e \<Rightarrow> Inl e
             | Inr action_room \<Rightarrow>
                (if \<not> check_person action (who_order parsed) then Inl (needs_person (verb parsed))
                 else result_messages T pl parsed
                        (fill_slots msg_what msg_quoted how where_clause action)
                        (fill_slots msg_what msg_quoted how where_clause action_room))))
          else if vtype vd = QUAD then
            (case verbdata_get vd (if who_info parsed \<noteq> [] then 4 else 2) of
               Inl e \<Rightarrow> Inl e
             | Inr action \<Rightarrow>
            (case verbdata_get vd (if who_info parsed \<noteq> [] then 5 else 3) of
               Inl e \<Rightarrow> Inl e
             | Inr action_room \<Rightarrow>
                result_messages T pl parsed
                  (fill_slots msg_what msg_quoted how where_clause action)
                  (fill_slots msg_what msg_quoted how where_clause action_room)))
          else
            (case simple_action vd parsed of
               Inl e \<Rightarrow> Inl e
             | Inr action0 \<Rightarrow>
            (case (if who_info parsed \<noteq> [] \<and> 1 < length (templates vd)
                   then (case verbdata_get vd 3 of
                           Inl e \<Rightarrow> Inl e
                         | Inr at_clause \<Rightarrow>
                             Inr (replace (ph ''AT'') (spacify (Some at_clause) @ ph ''WHO'') action0))
                   else Inr (replace (ph ''AT'') [] action0)) of
               Inl e \<Rightarrow> Inl e
             | Inr action1 \<Rightarrow>
                (if \<not> check_person action1 (who_order parsed) then Inl (needs_person (verb parsed))
                 else
                   (let action2 =
                          replace (ph ''MSG'') msg_quoted
                            (replace (ph ''WHAT'') msg_what
                              (replace (ph ''WHERE'') where_clause
                                (replace (ph ''HOW'') how action1)))
                    in result_messages T pl parsed (replace ''$'' [] action2)
                         (replace ''$'' ''s'' action2)))))))))"

section \<open>A small scene\<close>

text \<open>
  Four people, three exits, and tables with a few verbs, to run the interpreter on
  concrete command lines.
\<close>

definition person :: "nat \<Rightarrow> string \<Rightarrow> string \<Rightarrow> string \<Rightarrow> string \<Rightarrow> mudobject" where
  "person i nm subj poss obj = MudObject i Living nm [] nm subj poss obj (Some ''examine'') None"

definition alice :: mudobject where
  "alice = person 1 ''alice'' ''she'' ''her'' ''her''"

definition bob :: mudobject where
  "bob = person 2 ''bob'' ''he'' ''his'' ''him''"

definition carol :: mudobject where
  "carol = person 3 ''carol'' ''she'' ''her'' ''her''"

definition dave :: mudobject where
  "dave = person 4 ''dave'' ''he'' ''his'' ''him''"

definition north_exit :: mudobject where
  "north_exit = MudObject 11 Exit ''north'' [] ''Exit to square'' ''it'' ''its'' ''it'' None None"

definition gate_exit :: mudobject where
  "gate_exit = MudObject 12 Exit ''north gate'' [] ''Exit to gate'' ''it'' ''its'' ''it'' None None"

definition far_exit :: mudobject where
  "far_exit = MudObject 13 Exit ''a b c d e f'' [] ''Exit to far'' ''it'' ''its'' ''it'' None None"

definition lamp :: mudobject where
  "lamp = MudObject 21 Item ''lamp'' [''lantern''] ''brass lamp'' ''it'' ''its'' ''it'' (Some ''examine'') None"

definition coin :: mudobject where
  "coin = MudObject 22 Item ''coin'' [] ''gold coin'' ''it'' ''its'' ''it'' (Some ''examine'') None"

definition bag :: mudobject where
  "bag = MudObject 23 Item ''bag'' [] ''leather bag'' ''it'' ''its'' ''it'' (Some ''examine'') (Some [coin])"

text \<open>
  Alice's hall: she carries the lamp and the bag with the coin in it, bob is with her, and
  an exit leads north.
\<close>

definition hall :: world where
  "hall = \<lparr>player = alice, inventory = [lamp, bag], livings = [alice, bob], items = [],
           exits = [(''north'', north_exit)]\<rparr>"

definition room :: "mudobject \<Rightarrow> mudobject list \<Rightarrow> world" where
  "room actor present = \<lparr>player = actor, inventory = [], livings = present, items = [], exits = []\<rparr>"

text \<open>
  Modelled from the spec: \<open>lang.capital\<close>, \<open>lang.join\<close> and \<open>lang.fullstop\<close> (tale/lang.py is
  not among the sources), as far as the scene needs them. \<open>capital\<close> puts the first
  letter in upper case; \<open>join_words\<close> writes "a", "a and b", "a, b, and c" for words
  that differ; \<open>fullstop\<close> strips the end, then adds a full stop unless a punctuation
  mark is there already.
\<close>

definition upper_char :: "char \<Rightarrow> char" where
  "upper_char c = (let n = (of_char c :: nat) in if 97 \<le> n \<and> n \<le> 122 then char_of (n - 32) else c)"

definition capital :: "string \<Rightarrow> string" where
  "capital s = (case s of [] \<Rightarrow> [] | c # cs \<Rightarrow> upper_char c # cs)"

fun join_rest :: "string list \<Rightarrow> string \<Rightarrow> string" where
  "join_rest [] cj = []"
| "join_rest [x] cj = cj @ '' '' @ x"
| "join_rest (x # y # ys) cj = x @ '', '' @ join_rest (y # ys) cj"

fun join_words :: "string list \<Rightarrow> string \<Rightarrow> string" where
  "join_words [] cj = []"
| "join_words [x] cj = x"
| "join_words [x, y] cj = x @ '' '' @ cj @ '' '' @ y"
| "join_words (x # y # z # zs) cj = x @ '', '' @ join_rest (y # z # zs) cj"

definition fullstop :: "string \<Rightarrow> string" where
  "fullstop s =
     (case rev (rstrip s) of
        [] \<Rightarrow> ''.''
      | c # cs \<Rightarrow> (if c \<in> set ''!?.,;:-='' then rstrip s else rstrip s @ ''.''))"

text \<open>
  Modelled from the spec: a verb table in the format of tale/verbdefs.py (not among the
  sources), a tuple \<open>(kind, defaults, templates...)\<close> for each verb. "wave" and "smile"
  take their target after "at" (\<open>DEFA\<close>), "hug" has one pair of templates (\<open>DEUX\<close>),
  "greet" has a pair for no target and a pair for targets (\<open>QUAD\<close>), "pat" has a fixed
  clause before its target (\<open>PREV\<close>).
\<close>

definition example_tables :: tables where
  "example_tables =
     \<lparr>VERBS = map_of
        [(''wave'', \<lparr>vtype = DEFA, defaults = Some [Some ''happily''], templates = [[], ''at'']\<rparr>),
         (''smile'', \<lparr>vtype = DEFA, defaults = Some [Some ''happily''], templates = [[], ''at'']\<rparr>),
         (''hug'', \<lparr>vtype = DEUX, defaults = None,
                    templates = [''hug'' @ ph ''WHO'' @ ph ''HOW'', ''hugs'' @ ph ''WHO'' @ ph ''HOW'']\<rparr>),
         (''greet'', \<lparr>vtype = QUAD, defaults = Some [Some ''happily''],
                      templates = [''greet'' @ ph ''HOW'', ''greets'' @ ph ''HOW'',
                                   ''greet'' @ ph ''WHO'' @ ph ''HOW'',
                                   ''greets'' @ ph ''WHO'' @ ph ''HOW'']\<rparr>),
         (''pat'', \<lparr>vtype = PREV, defaults = None, templates = [''on the back'']\<rparr>)],
      ACTION_QUALIFIERS = map_of [(''suddenly'', (''suddenly %s'', ''suddenly %s'', True))],
      BODY_PARTS = map_of [(''hand'', ''on the hand'')],
      MOVEMENT_VERBS = {''go'', ''walk''},
      NONLIVING_OK_VERBS = {''examine''},
      ADVERBS = {''happily'', ''sadly''},
      adverb_by_prefix = (\<lambda>p. filter (\<lambda>a. startswith a p) [''happily'', ''sadly'']),
      lang_capital = capital,
      lang_join = join_words,
      lang_possessive = (\<lambda>s. s @ [CHR 0x27] @ ''s''),
      lang_fullstop = fullstop\<rparr>"

text \<open>What "smile at bob" parses to for alice, with bob in the room.\<close>

definition smile_at_bob :: parse_result where
  "smile_at_bob =
     \<lparr>verb = ''smile'', who_info = [(bob, \<lparr>sequence = 0, previous_word = Some ''at''\<rparr>)],
      who_order = [bob], adverb = None, message = [], bodypart = None, qualifier = None,
      args = [''bob''], unrecognized = [], unparsed = ''at bob''\<rparr>"

text \<open>
  What holds of the targets throughout the loop: every key of \<open>who_info\<close> is in
  \<open>who_order\<close>, the keys of the dictionary are distinct (it is a dictionary), and as long
  as neither "except" nor "but" has gone into \<open>arg_words\<close>, the walk is still including
  and \<open>who_order\<close> holds nothing but the keys.
\<close>

definition toggle_free :: "string list \<Rightarrow> bool" where
  "toggle_free ws = (''except'' \<notin> set ws \<and> ''but'' \<notin> set ws)"

definition who_consistent :: "pstate \<Rightarrow> bool" where
  "who_consistent st =
     (fst ` set (who_info' st) \<subseteq> set (who_order' st) \<and> distinct (map fst (who_info' st))
      \<and> (toggle_free (arg_words st) \<longrightarrow>
           include_flag st \<and> fst ` set (who_info' st) = set (who_order' st)))"

text \<open>
  What "wave at bob bob" and "wave at bob bob carol except bob" parse to for dave, and
  what "happily north" parses to for alice in her hall.
\<close>

definition happily_north :: parse_result where
  "happily_north =
     \<lparr>verb = ''examine'', who_info = [(north_exit, \<lparr>sequence = 0, previous_word = None\<rparr>)],
      who_order = [north_exit], adverb = Some ''happily'', message = [], bodypart = None,
      qualifier = None, args = [''happily'', ''north''], unrecognized = [],
      unparsed = ''happily north''\<rparr>"

definition bob_twice :: parse_result where
  "bob_twice =
     \<lparr>verb = ''wave'', who_info = [(bob, \<lparr>sequence = 1, previous_word = None\<rparr>)],
      who_order = [bob, bob], adverb = None, message = [], bodypart = None, qualifier = None,
      args = [''bob'', ''bob''], unrecognized = [], unparsed = ''at bob bob''\<rparr>"

definition bob_excluded :: parse_result where
  "bob_excluded =
     \<lparr>verb = ''wave'', who_info = [(carol, \<lparr>sequence = 2, previous_word = None\<rparr>)],
      who_order = [bob, carol], adverb = None, message = [], bodypart = None, qualifier = None,
      args = [''bob'', ''bob'', ''carol'', ''except'', ''bob''],
      unrecognized = [], unparsed = ''at bob bob carol except bob''\<rparr>"

text \<open>
  The state after "everyone" has been read while excluding: \<open>who_info\<close> is a plain, empty
  \<open>dict\<close> and \<open>who_order\<close> is empty.
\<close>

definition rebound :: "pstate \<Rightarrow> bool" where
  "rebound st = (who_plain st \<and> who_info' st = [] \<and> who_order' st = [])"

text \<open>
  A word that reaches one of the branches for the actor, a living or an item: it is "me",
  "myself" or "self", or it is a key of the livings or items dictionary that no earlier
  branch of the loop body takes (a pronoun, a body part, a collective word, a toggle or an
  adverb).
\<close>

definition names_target :: "tables \<Rightarrow> world \<Rightarrow> string \<Rightarrow> bool" where
  "names_target T w word =
     (word \<notin> {''them'', ''him'', ''her'', ''it''}
      \<and> (word \<in> {''me'', ''myself'', ''self''}
         \<or> (BODY_PARTS T word = None
            \<and> word \<notin> {''everyone'', ''everybody'', ''all'', ''everything'', ''except'', ''but''}
            \<and> word \<notin> ADVERBS T
            \<and> (map_of (all_livings_of w) word \<noteq> None \<or> map_of (all_items_of w) word \<noteq> None))))"

text \<open>
  The walk over "except all but bob" after the verb "wave", state by state: excluding
  after "except", rebound after "all", including again after "but".
\<close>

definition wave_info :: verbinfo where
  "wave_info = \<lparr>verb' = Some ''wave'', message_verb = False, external_verb = False, qualifier' = None\<rparr>"

definition after_except :: pstate where
  "after_except = (initial_pstate [])\<lparr>include_flag := False, arg_words := [''except'']\<rparr>"

definition after_all :: pstate where
  "after_all = after_except\<lparr>who_info' := [], who_plain := True, who_order' := [], who_sequence := 0,
                 arg_words := [''except'', ''all''], previous_word' := None\<rparr>"

definition after_but :: pstate where
  "after_but = after_all\<lparr>include_flag := True, arg_words := [''except'', ''all'', ''but'']\<rparr>"

text \<open>An action string that holds one of the placeholders for a person.\<close>

definition wants_person :: "string \<Rightarrow> bool" where
  "wants_person action = (contains action (newline # ''WHO'') \<or> contains action (newline # ''POSS''))"

section \<open>Properties of the multi-word matching\<close>

lemma join_space_snoc: "xs \<noteq> [] \<Longrightarrow> join_space (xs @ [y]) = join_space xs @ '' '' @ y"
  by (induction xs rule: join_space.induct) auto

lemma candidate_Suc:
  assumes "1 \<le> k" "index + k < length words"
  shows "candidate words index (Suc k) = candidate words index k @ '' '' @ words ! (index + k)"
proof -
  have "take (Suc k) (drop index words) = take k (drop index words) @ [words ! (index + k)]"
    using assms by (simp add: take_Suc_conv_app_nth)
  moreover have "take k (drop index words) \<noteq> []" using assms by auto
  ultimately show ?thesis by (simp add: candidate_def join_space_snoc)
qed

lemma candidate_1: "index < length words \<Longrightarrow> candidate words index (Suc 0) = words ! index"
  by (cases "drop index words") (auto simp: candidate_def hd_drop_conv_nth dest: arg_cong[where f=hd])

lemma cnws_loop_find:
  assumes "1 \<le> wc" "index + wc \<le> length words"
  shows "cnws_loop words index L I (candidate words index wc) wc =
     (case find (\<lambda>k. lookup2 L I (candidate words index k) \<noteq> None)
             [wc ..< Suc (min 5 (length words - index))] of
        None \<Rightarrow> (None, None, 0)
      | Some k \<Rightarrow> (lookup2 L I (candidate words index k), Some (candidate words index k), k))"
  using assms
proof (induction "6 - wc" arbitrary: wc)
  case 0
  then have "[wc ..< Suc (min 5 (length words - index))] = []" by (simp del: upt_Suc)
  moreover have "\<not> wc < 6" using 0 by simp
  ultimately show ?case by (subst cnws_loop.simps) simp
next
  case (Suc n)
  let ?m = "min 5 (length words - index)"
  have wc: "wc < 6" "wc \<le> ?m" using Suc by auto
  then have upt: "[wc ..< Suc ?m] = wc # [Suc wc ..< Suc ?m]" by (simp add: upt_conv_Cons del: upt_Suc)
  show ?case
  proof (cases "lookup2 L I (candidate words index wc)")
    case (Some x)
    then show ?thesis using wc
      by (subst cnws_loop.simps) (auto simp: upt lookup2_def simp del: upt_Suc split: option.splits)
  next
    case None
    show ?thesis
    proof (cases "index + wc < length words")
      case True
      have "n = 6 - Suc wc" using Suc by simp
      from Suc.hyps(1)[OF this] True
      have IH: "cnws_loop words index L I (candidate words index (Suc wc)) (Suc wc) =
         (case find (\<lambda>k. lookup2 L I (candidate words index k) \<noteq> None) [Suc wc ..< Suc ?m] of
            None \<Rightarrow> (None, None, 0)
          | Some k \<Rightarrow> (lookup2 L I (candidate words index k), Some (candidate words index k), k))"
        by (simp del: upt_Suc)
      show ?thesis using wc None True IH candidate_Suc[OF Suc.prems(1) True]
        by (subst cnws_loop.simps) (auto simp: upt lookup2_def simp del: upt_Suc split: option.splits)
    next
      case False
      then have "[Suc wc ..< Suc ?m] = []" using Suc.prems by (simp del: upt_Suc)
      then have "find (\<lambda>k. lookup2 L I (candidate words index k) \<noteq> None) [wc ..< Suc ?m] = None"
        using None by (simp add: upt del: upt_Suc)
      moreover have "cnws_loop words index L I (candidate words index wc) wc = (None, None, 0)"
        using wc None False by (subst cnws_loop.simps) (auto simp: lookup2_def split: option.splits)
      ultimately show ?thesis by simp
    qed
  qed
qed

text \<open>
  C2 (as the code has it). For every word list, index within it and pair of dictionaries,
  \<open>check_name_with_spaces\<close> tries the single word first (the livings dictionary before the
  items dictionary), then one more space-joined word at a time, and returns at the first
  candidate that is a key, with the number of words it took. It looks up candidates of at
  most five words: the loop runs while \<open>wordcount < 6\<close>, so the candidate of six words is
  built and never looked up.
\<close>

theorem check_name_with_spaces_shortest_match:
  assumes "index < length words"
  shows "check_name_with_spaces words index all_livings all_items =
           Inr (shortest_match 5 words index all_livings all_items)"
  using assms cnws_loop_find[of 1 index words all_livings all_items]
  by (simp add: check_name_with_spaces_def shortest_match_def candidate_1 del: upt_Suc)

text \<open>
  "go north gate", after the movement word: with exits keyed "north" and "north gate" the
  match is the exit "north", and it takes one word.
\<close>

theorem check_name_with_spaces_north_gate:
  "0 < length [''north'', ''gate''] \<and>
   check_name_with_spaces [''north'', ''gate''] 0
     (map_of [(''north'', north_exit), (''north gate'', gate_exit)]) Map.empty
   = Inr (Some north_exit, Some ''north'', 1)"
  using check_name_with_spaces_shortest_match
          [of 0 "[''north'', ''gate'']" "map_of [(''north'', north_exit), (''north gate'', gate_exit)]" Map.empty]
  by (simp add: shortest_match_def candidate_def lookup2_def)

text \<open>
  C2 as stated fails: a name of six words that is a key of the dictionary is a candidate of
  six words in all, and it is not found.
\<close>

theorem check_name_with_spaces_six_words:
  "candidate [''a'', ''b'', ''c'', ''d'', ''e'', ''f''] 0 6 = ''a b c d e f'' \<and>
   map_of [(''a b c d e f'', far_exit)] ''a b c d e f'' = Some far_exit \<and>
   check_name_with_spaces [''a'', ''b'', ''c'', ''d'', ''e'', ''f''] 0
     (map_of [(''a b c d e f'', far_exit)]) Map.empty = Inr (None, None, 0) \<and>
   check_name_with_spaces [''a'', ''b'', ''c'', ''d'', ''e'', ''f''] 0
     (map_of [(''a b c d e f'', far_exit)]) Map.empty
   \<noteq> Inr (shortest_match 6 [''a'', ''b'', ''c'', ''d'', ''e'', ''f''] 0
            (map_of [(''a b c d e f'', far_exit)]) Map.empty)"
  by (simp add: check_name_with_spaces_def cnws_loop.simps shortest_match_def candidate_def lookup2_def)

section \<open>Properties of the pronoun memory\<close>







section \<open>Properties of Living.parse\<close>

lemma parse_commandline_frame:
  "soul_previously_parsed (fst (parse_commandline T w ls line ext)) = soul_previously_parsed ls"
  "previous_commandline (fst (parse_commandline T w ls line ext)) = Some line"
  "told (fst (parse_commandline T w ls line ext))
     = told ls @ fst (Soul_parse T w (soul_previously_parsed ls) line ext)"
  "previous_parse (fst (parse_commandline T w ls line ext))
     = (case snd (Soul_parse T w (soul_previously_parsed ls) line ext) of
          Inl e \<Rightarrow> previous_parse ls
        | Inr p \<Rightarrow> Some p)"
  by (auto simp: parse_commandline_def Let_def split: prod.splits sum.splits)

lemma parse_smile_at_bob:
  "Soul_parse example_tables (room alice [alice, bob]) None ''smile at bob'' {} = ([], Inr smile_at_bob)"
  by code_simp

lemma parse_him_without_memory:
  "Soul_parse example_tables (room alice [alice, bob]) None ''wave at him'' {}
     = ([], Inl (ParseError ''It is not clear who you mean.''))"
  by code_simp

text \<open>
  C10. \<open>Living.parse\<close> with the command line "again" never hands the word "again" to the
  soul. With a stored previous command line (one that is not empty: the code tests its
  truth value) the call is the call with that line, after the repeat notice has been told:
  what the soul parses is the previous line. With none stored (or an empty one) the call
  raises \<open>ActionRefused\<close> and changes nothing. The stored line is never "again" itself:
  \<open>Living.parse\<close> does not store that line.
\<close>

theorem Living_parse_again:
  "(previous_commandline ls = Some previous \<and> previous \<noteq> [] \<and> previous \<noteq> ''again'' \<longrightarrow>
      Living_parse T w ls ''again'' ext
        = Living_parse T w (ls\<lparr>told := told ls @ [''<dim>(repeat: '' @ previous @ '')</>'']\<rparr>) previous ext
      \<and> told (fst (Living_parse T w ls ''again'' ext))
        = told ls @ [''<dim>(repeat: '' @ previous @ '')</>'']
            @ fst (Soul_parse T w (soul_previously_parsed ls) previous ext))
   \<and> (previous_commandline ls = None \<or> previous_commandline ls = Some [] \<longrightarrow>
      Living_parse T w ls ''again'' ext
        = (ls, Inl (ActionRefused (''Can'' @ [CHR 0x27] @ ''t repeat your previous action.''))))
   \<and> (previous_commandline ls \<noteq> Some ''again'' \<longrightarrow>
      previous_commandline (fst (Living_parse T w ls cmd ext)) \<noteq> Some ''again'')"
  by (auto simp: Living_parse_def parse_commandline_frame split: option.splits)

text \<open>
  Alice repeats "smile at bob"; an actor that has typed nothing yet is refused; after
  "wave" the stored line is not "again".
\<close>

theorem Living_parse_again_witness:
  "Living_parse example_tables (room alice [alice, bob])
      (new_living\<lparr>previous_commandline := Some ''smile at bob''\<rparr>) ''again'' {}
     = Living_parse example_tables (room alice [alice, bob])
         (new_living\<lparr>previous_commandline := Some ''smile at bob'',
                      told := [''<dim>(repeat: smile at bob)</>'']\<rparr>) ''smile at bob'' {}
   \<and> Living_parse example_tables (room alice [alice, bob]) new_living ''again'' {}
     = (new_living, Inl (ActionRefused (''Can'' @ [CHR 0x27] @ ''t repeat your previous action.'')))
   \<and> previous_commandline (fst (Living_parse example_tables (room alice [alice, bob]) new_living ''wave'' {}))
     \<noteq> Some ''again''"
  using Living_parse_again
          [of "new_living\<lparr>previous_commandline := Some ''smile at bob''\<rparr>" "''smile at bob''"
              example_tables "room alice [alice, bob]" "{}" "''wave''"]
        Living_parse_again
          [of new_living "''smile at bob''" example_tables "room alice [alice, bob]" "{}" "''wave''"]
  by (simp add: new_living_def)

lemma parse_commandline_failed:
  "snd (Soul_parse T w (soul_previously_parsed ls) line ext) = Inl e \<Longrightarrow>
   snd (parse_commandline T w ls line ext) = Inl e"
  by (auto simp: parse_commandline_def Let_def split: prod.splits sum.splits)

lemma parse_commandline_returned:
  "snd (Soul_parse T w (soul_previously_parsed ls) line ext) = Inr p \<Longrightarrow>
   snd (parse_commandline T w ls line ext) = Inr p
   \<or> snd (parse_commandline T w ls line ext) = Inl (NonSoulVerb p)
   \<or> snd (parse_commandline T w ls line ext)
       = Inl (ParseError (''That doesn'' @ [CHR 0x27] @ ''t make much sense.''))"
  by (auto simp: parse_commandline_def Let_def validate_socialize_targets_def
           split: prod.splits sum.splits)

lemma Living_parse_line:
  "(cmd \<noteq> ''again'' \<and> line = cmd)
     \<or> (cmd = ''again'' \<and> previous_commandline ls = Some line \<and> line \<noteq> []) \<Longrightarrow>
   \<exists>heard. Living_parse T w ls cmd ext = parse_commandline T w (ls\<lparr>told := heard\<rparr>) line ext"
proof (cases "cmd = ''again''")
  case True
  assume "(cmd \<noteq> ''again'' \<and> line = cmd)
     \<or> (cmd = ''again'' \<and> previous_commandline ls = Some line \<and> line \<noteq> [])"
  with True show ?thesis by (auto simp: Living_parse_def)
next
  case False
  assume "(cmd \<noteq> ''again'' \<and> line = cmd)
     \<or> (cmd = ''again'' \<and> previous_commandline ls = Some line \<and> line \<noteq> [])"
  with False have "Living_parse T w ls cmd ext = parse_commandline T w (ls\<lparr>told := told ls\<rparr>) line ext"
    by (simp add: Living_parse_def)
  then show ?thesis by blast
qed

text \<open>
  C3. No call of \<open>Living.parse\<close> writes the memory cell \<open>soul.__previously_parsed\<close>: the cell
  is written by \<open>remember_previous_parse\<close> alone, from \<open>_previous_parse\<close>. Let the line be
  what the soul is given (the command line, or for "again" the stored one). When the soul
  fails on it, \<open>Living.parse\<close> fails with the same error and leaves \<open>_previous_parse\<close> as it
  was, so remembering afterwards stores what was there before. When the soul returns a
  \<open>ParseResult\<close>, \<open>Living.parse\<close> returns it, raises \<open>NonSoulVerb\<close> with it, or raises the
  \<open>ParseError\<close> "That doesn't make much sense."; in all three cases \<open>_previous_parse\<close> is
  that result, and it is what remembering afterwards stores. A refused "again" changes
  nothing.
\<close>

theorem memory_cell_unchanged:
  "soul_previously_parsed (fst (Living_parse T w ls cmd ext)) = soul_previously_parsed ls
   \<and> ((cmd \<noteq> ''again'' \<and> line = cmd)
        \<or> (cmd = ''again'' \<and> previous_commandline ls = Some line \<and> line \<noteq> []) \<longrightarrow>
      (snd (Soul_parse T w (soul_previously_parsed ls) line ext) = Inl e \<longrightarrow>
         snd (Living_parse T w ls cmd ext) = Inl e
         \<and> previous_parse (fst (Living_parse T w ls cmd ext)) = previous_parse ls
         \<and> soul_previously_parsed (remember_previous_parse (fst (Living_parse T w ls cmd ext)))
             = previous_parse ls)
      \<and> (snd (Soul_parse T w (soul_previously_parsed ls) line ext) = Inr p \<longrightarrow>
         (snd (Living_parse T w ls cmd ext) = Inr p
            \<or> snd (Living_parse T w ls cmd ext) = Inl (NonSoulVerb p)
            \<or> snd (Living_parse T w ls cmd ext)
                = Inl (ParseError (''That doesn'' @ [CHR 0x27] @ ''t make much sense.'')))
         \<and> previous_parse (fst (Living_parse T w ls cmd ext)) = Some p
         \<and> soul_previously_parsed (remember_previous_parse (fst (Living_parse T w ls cmd ext)))
             = Some p))
   \<and> (cmd = ''again'' \<and> (previous_commandline ls = None \<or> previous_commandline ls = Some []) \<longrightarrow>
        fst (Living_parse T w ls cmd ext) = ls)"
proof (intro conjI impI)
  show "soul_previously_parsed (fst (Living_parse T w ls cmd ext)) = soul_previously_parsed ls"
    by (auto simp: Living_parse_def parse_commandline_frame split: option.splits)
next
  assume "cmd = ''again'' \<and> (previous_commandline ls = None \<or> previous_commandline ls = Some [])"
  then show "fst (Living_parse T w ls cmd ext) = ls"
    by (auto simp: Living_parse_def)
next
  assume "(cmd \<noteq> ''again'' \<and> line = cmd)
        \<or> (cmd = ''again'' \<and> previous_commandline ls = Some line \<and> line \<noteq> [])"
  then obtain heard
    where run: "Living_parse T w ls cmd ext = parse_commandline T w (ls\<lparr>told := heard\<rparr>) line ext"
    using Living_parse_line by blast
  let ?ls = "ls\<lparr>told := heard\<rparr>"
  have same: "soul_previously_parsed ?ls = soul_previously_parsed ls"
      "previous_parse ?ls = previous_parse ls"
    by simp_all
  {
    assume failed: "snd (Soul_parse T w (soul_previously_parsed ls) line ext) = Inl e"
    then show "snd (Living_parse T w ls cmd ext) = Inl e"
      unfolding run using parse_commandline_failed[of T w ?ls line ext e] by simp
    from failed show unchanged: "previous_parse (fst (Living_parse T w ls cmd ext)) = previous_parse ls"
      unfolding run by (simp add: parse_commandline_frame(4)[of T w ?ls line ext])
    then show "soul_previously_parsed (remember_previous_parse (fst (Living_parse T w ls cmd ext)))
             = previous_parse ls"
      by (simp add: remember_previous_parse_def)
  }
  {
    assume returned: "snd (Soul_parse T w (soul_previously_parsed ls) line ext) = Inr p"
    then show "snd (Living_parse T w ls cmd ext) = Inr p
            \<or> snd (Living_parse T w ls cmd ext) = Inl (NonSoulVerb p)
            \<or> snd (Living_parse T w ls cmd ext)
                = Inl (ParseError (''That doesn'' @ [CHR 0x27] @ ''t make much sense.''))"
      unfolding run using parse_commandline_returned[of T w ?ls line ext p] by simp
    from returned show stored: "previous_parse (fst (Living_parse T w ls cmd ext)) = Some p"
      unfolding run by (simp add: parse_commandline_frame(4)[of T w ?ls line ext])
    then show "soul_previously_parsed (remember_previous_parse (fst (Living_parse T w ls cmd ext)))
             = Some p"
      by (simp add: remember_previous_parse_def)
  }
qed

lemma parse_him_in_the_hall:
  "Soul_parse example_tables hall None ''wave at him'' {}
     = ([], Inl (ParseError ''It is not clear who you mean.''))"
  by code_simp

lemma parse_smile_in_the_hall:
  "Soul_parse example_tables hall None ''smile at bob'' {} = ([], Inr smile_at_bob)"
  by code_simp

text \<open>
  Alice in her hall, with nothing in the cell: "wave at him" fails in the soul and the
  result of the command before it stays the one to remember; "smile at bob" succeeds and
  is the one to remember; "again" before any command changes nothing.
\<close>

theorem memory_cell_unchanged_witness:
  "snd (Living_parse example_tables hall (new_living\<lparr>previous_parse := Some (ParseResult ''wave'')\<rparr>)
          ''wave at him'' {})
       = Inl (ParseError ''It is not clear who you mean.'')
   \<and> soul_previously_parsed (remember_previous_parse
        (fst (Living_parse example_tables hall (new_living\<lparr>previous_parse := Some (ParseResult ''wave'')\<rparr>)
                ''wave at him'' {})))
       = Some (ParseResult ''wave'')
   \<and> snd (Living_parse example_tables hall (new_living\<lparr>previous_parse := Some (ParseResult ''wave'')\<rparr>)
            ''smile at bob'' {})
       = Inr smile_at_bob
   \<and> soul_previously_parsed (remember_previous_parse
        (fst (Living_parse example_tables hall (new_living\<lparr>previous_parse := Some (ParseResult ''wave'')\<rparr>)
                ''smile at bob'' {})))
       = Some smile_at_bob
   \<and> fst (Living_parse example_tables hall new_living ''again'' {}) = new_living"
proof -
  let ?ls = "new_living\<lparr>previous_parse := Some (ParseResult ''wave'')\<rparr>"
  have cell: "soul_previously_parsed ?ls = None" "previous_parse ?ls = Some (ParseResult ''wave'')"
      "previous_commandline new_living = None"
    by (simp_all add: new_living_def)
  have line: "''wave at him'' \<noteq> ''again''" "''smile at bob'' \<noteq> ''again''"
    by simp_all
  have failed: "snd (Soul_parse example_tables hall (soul_previously_parsed ?ls) ''wave at him'' {})
      = Inl (ParseError ''It is not clear who you mean.'')"
    unfolding cell by (simp add: parse_him_in_the_hall)
  have returned: "snd (Soul_parse example_tables hall (soul_previously_parsed ?ls) ''smile at bob'' {})
      = Inr smile_at_bob"
    unfolding cell by (simp add: parse_smile_in_the_hall)
  have out: "snd (Living_parse example_tables hall ?ls ''smile at bob'' {}) = Inr smile_at_bob"
    by code_simp
  show ?thesis
    using memory_cell_unchanged
            [of example_tables hall ?ls "''wave at him''" "{}" "''wave at him''"
                "ParseError ''It is not clear who you mean.''" smile_at_bob]
          memory_cell_unchanged
            [of example_tables hall ?ls "''smile at bob''" "{}" "''smile at bob''"
                "ParseError ''It is not clear who you mean.''" smile_at_bob]
          memory_cell_unchanged
            [of example_tables hall new_living "''again''" "{}" "''again''"
                "ParseError ''It is not clear who you mean.''" smile_at_bob]
          failed returned out line cell
    by simp
qed

text \<open>
  C3 as stated does not hold. Alice, in her hall with the exit "north", remembers
  "smile at bob". Her next command, "happily north", fails in \<open>Living.parse\<close> with the
  \<open>ParseError\<close> "That doesn't make much sense.": the soul has returned a \<open>ParseResult\<close>
  whose target is the exit, \<open>_previous_parse\<close> has been assigned, and only then is the exit
  refused. The cell itself is not written by the failed call, but what
  \<open>remember_previous_parse\<close> stores after it is the result of the failed command, not
  "smile at bob".
\<close>

theorem failed_parse_is_remembered:
  "snd (Living_parse example_tables hall
          (new_living\<lparr>previous_parse := Some smile_at_bob, soul_previously_parsed := Some smile_at_bob\<rparr>)
          ''happily north'' {})
     = Inl (ParseError (''That doesn'' @ [CHR 0x27] @ ''t make much sense.''))
   \<and> soul_previously_parsed (fst (Living_parse example_tables hall
          (new_living\<lparr>previous_parse := Some smile_at_bob, soul_previously_parsed := Some smile_at_bob\<rparr>)
          ''happily north'' {}))
     = Some smile_at_bob
   \<and> soul_previously_parsed (remember_previous_parse (fst (Living_parse example_tables hall
          (new_living\<lparr>previous_parse := Some smile_at_bob, soul_previously_parsed := Some smile_at_bob\<rparr>)
          ''happily north'' {})))
     = Some happily_north
   \<and> happily_north \<noteq> smile_at_bob"
  by code_simp

section \<open>Properties of the quoted message\<close>

lemma quoted_search_here:
  assumes c: "c = CHR 0x27 \<or> c = CHR 0x22"
      and content: "newline \<notin> set content"
      and post: "c \<notin> set (takeWhile (\<lambda>x. x \<noteq> newline) post)"
  shows "quoted_search p (c # content @ c # post)
           = Some (p, p + length content + 2, c = CHR 0x27, content)"
proof -
  let ?tw = "takeWhile (\<lambda>x. x \<noteq> newline) post"
  have cn: "c \<noteq> newline" using c by (auto simp: newline_def)
  have line: "takeWhile (\<lambda>x. x \<noteq> newline) (content @ c # post) = content @ c # ?tw"
  proof -
    have "takeWhile (\<lambda>x. x \<noteq> newline) (content @ c # post)
            = content @ takeWhile (\<lambda>x. x \<noteq> newline) (c # post)"
      using content by (intro takeWhile_append2) auto
    then show ?thesis using cn by simp
  qed
  have "takeWhile (\<lambda>x. x \<noteq> c) (rev (content @ c # ?tw)) = rev ?tw"
  proof -
    have "takeWhile (\<lambda>x. x \<noteq> c) (rev ?tw @ c # rev content)
            = rev ?tw @ takeWhile (\<lambda>x. x \<noteq> c) (c # rev content)"
      using post by (intro takeWhile_append2) auto
    then show ?thesis by simp
  qed
  then have j: "length (content @ c # ?tw) - Suc (length (takeWhile (\<lambda>x. x \<noteq> c) (rev (content @ c # ?tw))))
              = length content"
    by simp
  show ?thesis
    using c by (simp only: quoted_search.simps line Let_def j) auto
qed

lemma quoted_search_skip:
  assumes "\<forall>x \<in> set pre. x \<noteq> CHR 0x27 \<and> x \<noteq> CHR 0x22"
  shows "quoted_search p (pre @ rest) = quoted_search (p + length pre) rest"
  using assms by (induction pre arbitrary: p) (auto simp: Let_def)

text \<open>
  The extraction where it works: a line whose first quote character opens a span that
  closes at the last such character before the end of the line. The message is the
  stripped content and the span is gone from the line.
\<close>

lemma extract_message_quoted:
  assumes "c = CHR 0x27 \<or> c = CHR 0x22"
      and "\<forall>x \<in> set pre. x \<noteq> CHR 0x27 \<and> x \<noteq> CHR 0x22"
      and "newline \<notin> set content"
      and "c \<notin> set (takeWhile (\<lambda>x. x \<noteq> newline) post)"
      and "c = CHR 0x27 \<longrightarrow> content \<noteq> []"
  shows "extract_message (pre @ c # content @ c # post) = Inr ([strip content], pre @ post)"
  using assms(5) quoted_search_here[OF assms(1,3,4), of "0 + length pre"]
        quoted_search_skip[OF assms(2), of 0 "c # content @ c # post"]
  by (simp add: extract_message_def)

text \<open>
  C5, where the code breaks it. A pair of single quotes with nothing between them is a
  matching pair, yet no message is extracted: the empty group is falsy, the other group is
  \<open>None\<close>, and \<open>None.strip()\<close> raises \<open>AttributeError\<close>, for every table, snapshot and
  memory. The same line with a pair of double quotes is handled: the message is the empty
  string and the span is removed.
\<close>

theorem empty_single_quotes_raise:
  "Soul_parse T w prev (''wave '' @ [CHR 0x27, CHR 0x27]) ext = ([], Inl AttributeError)
   \<and> extract_message (''wave '' @ [CHR 0x22, CHR 0x22]) = Inr ([[]], ''wave '')"
  by (simp add: Soul_parse_def extract_message_def Let_def newline_def strip_def lstrip_def rstrip_def)

text \<open>The example of C5: the message is "hello there" and \<open>args\<close> holds no quote.\<close>

lemma parse_wave_hello_there:
  "Soul_parse example_tables (room dave [alice, bob, carol, dave]) None
     (''wave '' @ [CHR 0x22] @ ''hello there'' @ [CHR 0x22] @ '' at bob'') {}
   = ([], Inr \<lparr>verb = ''wave'', who_info = [(bob, \<lparr>sequence = 0, previous_word = Some ''at''\<rparr>)],
         who_order = [bob], adverb = None, message = ''hello there'', bodypart = None,
         qualifier = None, args = [''bob''], unrecognized = [],
         unparsed = [CHR 0x22] @ ''hello there'' @ [CHR 0x22] @ '' at bob''\<rparr>)"
  by code_simp

section \<open>Properties of Soul.parse on the scene\<close>

lemmas scene_defs = room_def alice_def bob_def carol_def dave_def person_def

lemmas parse_defs =
  Soul_parse_def extract_message_def split_def isspace_def newline_def skip_words_def lstrip_def
  identify_verb_def initial_pstate_def finish_parse_def parse_word_def parse_other_word_def
  parse_name_word_def everyone_word_def set_bodypart_def set_adverb_def finish_target_def found_def
  rstrip_comma_def all_livings_of_def all_items_of_def add_names_def mention_def add_who_def
  discard_who_def del_who_def unrecognized_word_def check_name_with_spaces_def cnws_loop.simps
  truthy_def ParseResult_init_def refill_def Let_def

lemmas pronoun_defs =
  match_previously_parsed_def reachable_def search_item_def Item_search_item_def lower_def
  lower_char_def

lemma example_wave:
  "VERBS example_tables ''wave'' = Some \<lparr>vtype = DEFA, defaults = Some [Some ''happily''], templates = [[], ''at'']\<rparr>"
  "VERBS example_tables ''smile'' = Some \<lparr>vtype = DEFA, defaults = Some [Some ''happily''], templates = [[], ''at'']\<rparr>"
  "verbdata_get \<lparr>vtype = DEFA, defaults = Some [Some ''happily''], templates = [[], ''at'']\<rparr> 2 = Inr []"
  "ACTION_QUALIFIERS example_tables ''wave'' = None"
  "ACTION_QUALIFIERS example_tables ''smile'' = None"
  "BODY_PARTS example_tables ''at'' = None" "BODY_PARTS example_tables ''everyone'' = None"
  "BODY_PARTS example_tables ''except'' = None" "BODY_PARTS example_tables ''bob'' = None"
  "''at'' \<notin> ADVERBS example_tables" "''bob'' \<notin> ADVERBS example_tables"
  by (simp_all add: example_tables_def verbdata_get_def)

text \<open>The orders in which a set of the four people can be iterated.\<close>

lemma four_people_orders:
  assumes "distinct present" "set present = {alice, bob, carol, dave}"
  shows "present \<in> {[alice, bob, carol, dave], [alice, bob, dave, carol], [alice, carol, bob, dave],
                     [alice, carol, dave, bob], [alice, dave, bob, carol], [alice, dave, carol, bob],
                     [bob, alice, carol, dave], [bob, alice, dave, carol], [bob, carol, alice, dave],
                     [bob, carol, dave, alice], [bob, dave, alice, carol], [bob, dave, carol, alice],
                     [carol, alice, bob, dave], [carol, alice, dave, bob], [carol, bob, alice, dave],
                     [carol, bob, dave, alice], [carol, dave, alice, bob], [carol, dave, bob, alice],
                     [dave, alice, bob, carol], [dave, alice, carol, bob], [dave, bob, alice, carol],
                     [dave, bob, carol, alice], [dave, carol, alice, bob], [dave, carol, bob, alice]}"
proof -
  have ne: "alice \<noteq> bob" "alice \<noteq> carol" "alice \<noteq> dave" "bob \<noteq> carol" "bob \<noteq> dave" "carol \<noteq> dave"
    by (simp_all add: alice_def bob_def carol_def dave_def person_def)
  have "card (set present) = 4" using ne by (simp add: assms(2))
  then have "length present = 4" using assms(1) by (simp add: distinct_card)
  then obtain x1 x2 x3 x4 where p: "present = [x1, x2, x3, x4]"
    by (auto simp: length_Suc_conv numeral_eq_Suc)
  have mem: "x1 \<in> {alice, bob, carol, dave}" "x2 \<in> {alice, bob, carol, dave}"
    "x3 \<in> {alice, bob, carol, dave}" "x4 \<in> {alice, bob, carol, dave}"
    using assms(2) by (auto simp: p)
  have d: "x1 \<noteq> x2" "x1 \<noteq> x3" "x1 \<noteq> x4" "x2 \<noteq> x3" "x2 \<noteq> x4" "x3 \<noteq> x4"
    using assms(1) by (auto simp: p)
  show ?thesis using mem d unfolding p by (elim insertE emptyE) simp_all
qed

text \<open>
  C4. Alice, bob, carol and the actor dave are the livings of dave's location, iterated in
  any order; the location has no items and no exits. For every verb table in which "wave"
  is a soul verb that takes no message, and in which the words of the command are neither
  body parts nor adverbs, "wave at everyone except bob" parses, and its targets are exactly
  alice and carol: "everyone" adds alice, bob and carol (not dave), "except" turns to
  exclusion, "bob" removes bob.
\<close>

theorem everyone_except_bob:
  assumes "VERBS T ''wave'' = Some vd" "verbdata_get vd 2 = Inr template"
      and "\<not> contains template (newline # ''MSG'')" "\<not> contains template (newline # ''WHAT'')"
      and "''wave'' \<notin> ext" "ACTION_QUALIFIERS T ''wave'' = None"
      and "BODY_PARTS T ''at'' = None" "BODY_PARTS T ''everyone'' = None"
          "BODY_PARTS T ''except'' = None" "BODY_PARTS T ''bob'' = None"
      and "''at'' \<notin> ADVERBS T" "''bob'' \<notin> ADVERBS T"
      and "distinct present" "set present = {alice, bob, carol, dave}"
  shows "\<exists>p. Soul_parse T (room dave present) prev ''wave at everyone except bob'' ext = ([], Inr p)
            \<and> set (who_order p) = {alice, carol} \<and> fst ` set (who_info p) = {alice, carol}
            \<and> length (who_order p) = 2 \<and> verb p = ''wave''
            \<and> args p = [''everyone'', ''except'', ''bob'']"
  using four_people_orders[OF assms(13,14)] assms(1-12)
  apply (elim insertE emptyE)
  apply (simp_all add: parse_defs scene_defs)
  apply auto
  done

text \<open>
  With the tables of the scene and the order alice, bob, carol, dave the result is this
  one, and it is the one of the theorem.
\<close>

theorem everyone_except_bob_witness:
  "distinct [alice, bob, carol, dave] \<and> set [alice, bob, carol, dave] = {alice, bob, carol, dave}
   \<and> Soul_parse example_tables (room dave [alice, bob, carol, dave]) None
        ''wave at everyone except bob'' {}
      = ([], Inr \<lparr>verb = ''wave'',
                  who_info = [(alice, \<lparr>sequence = 0, previous_word = Some ''at''\<rparr>),
                              (carol, \<lparr>sequence = 2, previous_word = Some ''at''\<rparr>)],
                  who_order = [alice, carol], adverb = None, message = [], bodypart = None,
                  qualifier = None, args = [''everyone'', ''except'', ''bob''], unrecognized = [],
                  unparsed = ''at everyone except bob''\<rparr>)
   \<and> (\<exists>p. Soul_parse example_tables (room dave [alice, bob, carol, dave]) None
              ''wave at everyone except bob'' {} = ([], Inr p)
            \<and> set (who_order p) = {alice, carol} \<and> fst ` set (who_info p) = {alice, carol}
            \<and> length (who_order p) = 2 \<and> verb p = ''wave''
            \<and> args p = [''everyone'', ''except'', ''bob''])"
proof -
  have d: "distinct [alice, bob, carol, dave]" "set [alice, bob, carol, dave] = {alice, bob, carol, dave}"
    by (simp_all add: scene_defs)
  have e: "Soul_parse example_tables (room dave [alice, bob, carol, dave]) None
        ''wave at everyone except bob'' {}
      = ([], Inr \<lparr>verb = ''wave'',
                  who_info = [(alice, \<lparr>sequence = 0, previous_word = Some ''at''\<rparr>),
                              (carol, \<lparr>sequence = 2, previous_word = Some ''at''\<rparr>)],
                  who_order = [alice, carol], adverb = None, message = [], bodypart = None,
                  qualifier = None, args = [''everyone'', ''except'', ''bob''], unrecognized = [],
                  unparsed = ''at everyone except bob''\<rparr>)"
    by code_simp
  have t: "\<exists>p. Soul_parse example_tables (room dave [alice, bob, carol, dave]) None
              ''wave at everyone except bob'' {} = ([], Inr p)
            \<and> set (who_order p) = {alice, carol} \<and> fst ` set (who_info p) = {alice, carol}
            \<and> length (who_order p) = 2 \<and> verb p = ''wave''
            \<and> args p = [''everyone'', ''except'', ''bob'']"
    by (rule everyone_except_bob[where template = "[]" and vd = "\<lparr>vtype = DEFA, defaults = Some [Some ''happily''], templates = [[], ''at'']\<rparr>"])
       (simp_all add: example_wave newline_def scene_defs)
  show ?thesis using d e t by blast
qed

lemma two_people_orders:
  assumes "distinct present" "set present = {alice, bob}"
  shows "present = [alice, bob] \<or> present = [bob, alice]"
proof -
  have ne: "alice \<noteq> bob" by (simp add: alice_def bob_def person_def)
  have "card (set present) = 2" using ne by (simp add: assms(2))
  then have "length present = 2" using assms(1) by (simp add: distinct_card)
  then obtain x1 x2 where p: "present = [x1, x2]"
    by (auto simp: length_Suc_conv numeral_eq_Suc)
  then show ?thesis using assms by auto
qed

text \<open>
  C8. Alice and bob are the livings of a room without items and exits, iterated in either
  order; "smile" and "wave" are soul verbs that take no message, and "at" and "bob" are
  neither body parts nor adverbs. Then "smile at bob" parses for alice to a result whose
  only target is bob, and with any such result remembered "wave at him" parses to the
  targets \<open>[bob]\<close>, with bob's name in \<open>args\<close> in place of the pronoun, after the line that
  tells alice what "him" is taken to mean.
\<close>

theorem pronoun_round_trip:
  assumes "VERBS T ''smile'' = Some vd1" "verbdata_get vd1 2 = Inr template1"
      and "\<not> contains template1 (newline # ''MSG'')" "\<not> contains template1 (newline # ''WHAT'')"
      and "VERBS T ''wave'' = Some vd2" "verbdata_get vd2 2 = Inr template2"
      and "\<not> contains template2 (newline # ''MSG'')" "\<not> contains template2 (newline # ''WHAT'')"
      and "''smile'' \<notin> ext" "ACTION_QUALIFIERS T ''smile'' = None"
      and "''wave'' \<notin> ext" "ACTION_QUALIFIERS T ''wave'' = None"
      and "BODY_PARTS T ''at'' = None" "BODY_PARTS T ''bob'' = None"
      and "''at'' \<notin> ADVERBS T" "''bob'' \<notin> ADVERBS T"
      and "distinct present" "set present = {alice, bob}"
  shows "Soul_parse T (room alice present) prev ''smile at bob'' ext = ([], Inr smile_at_bob)
     \<and> (who_order p = [bob] \<longrightarrow>
          Soul_parse T (room alice present) (Some p) ''wave at him'' ext
            = ([tell_mean ''him'' bob],
               Inr \<lparr>verb = ''wave'',
                    who_info = [(bob, \<lparr>sequence = 0, previous_word = Some ''at''\<rparr>)],
                    who_order = [bob], adverb = None, message = [], bodypart = None,
                    qualifier = None, args = [''bob''], unrecognized = [],
                    unparsed = ''at him''\<rparr>))"
  using two_people_orders[OF assms(17,18)] assms(1-16)
  by (elim disjE) (simp_all add: parse_defs pronoun_defs smile_at_bob_def scene_defs)

text \<open>The round trip with the tables of the scene.\<close>

theorem pronoun_round_trip_witness:
  "Soul_parse example_tables (room alice [alice, bob]) None ''smile at bob'' {} = ([], Inr smile_at_bob)
   \<and> who_order smile_at_bob = [bob]
   \<and> Soul_parse example_tables (room alice [alice, bob]) (Some smile_at_bob) ''wave at him'' {}
        = ([''<dim>(By '' @ [CHR 0x27] @ ''him'' @ [CHR 0x27] @ '', it is assumed you mean bob.)</>''],
           Inr \<lparr>verb = ''wave'',
                who_info = [(bob, \<lparr>sequence = 0, previous_word = Some ''at''\<rparr>)],
                who_order = [bob], adverb = None, message = [], bodypart = None,
                qualifier = None, args = [''bob''], unrecognized = [],
                unparsed = ''at him''\<rparr>)"
proof -
  have order: "who_order smile_at_bob = [bob]" by (simp add: smile_at_bob_def)
  have line: "tell_mean ''him'' bob
      = ''<dim>(By '' @ [CHR 0x27] @ ''him'' @ [CHR 0x27] @ '', it is assumed you mean bob.)</>''"
    by (simp add: tell_mean_def bob_def person_def)
  have "Soul_parse example_tables (room alice [alice, bob]) None ''smile at bob'' {} = ([], Inr smile_at_bob)
     \<and> (who_order smile_at_bob = [bob] \<longrightarrow>
          Soul_parse example_tables (room alice [alice, bob]) (Some smile_at_bob) ''wave at him'' {}
            = ([tell_mean ''him'' bob],
               Inr \<lparr>verb = ''wave'',
                    who_info = [(bob, \<lparr>sequence = 0, previous_word = Some ''at''\<rparr>)],
                    who_order = [bob], adverb = None, message = [], bodypart = None,
                    qualifier = None, args = [''bob''], unrecognized = [],
                    unparsed = ''at him''\<rparr>))"
    by (rule pronoun_round_trip[where ?template1.0 = "[]" and ?template2.0 = "[]"
              and present = "[alice, bob]"
              and ?vd1.0 = "\<lparr>vtype = DEFA, defaults = Some [Some ''happily''], templates = [[], ''at'']\<rparr>"
              and ?vd2.0 = "\<lparr>vtype = DEFA, defaults = Some [Some ''happily''], templates = [[], ''at'']\<rparr>"])
       (simp_all add: example_wave newline_def scene_defs)
  then show ?thesis using order line by simp
qed

section \<open>Properties of the targets of Soul.parse\<close>

lemma who_consistent_transfer:
  assumes "who_consistent a" "who_info' b = who_info' a" "who_order' b = who_order' a"
      and "include_flag b = include_flag a" "set (arg_words a) \<subseteq> set (arg_words b)"
  shows "who_consistent b"
  using assms unfolding who_consistent_def toggle_free_def by auto

lemma who_consistent_excluding:
  assumes "who_consistent a" "\<not> include_flag a" "set (arg_words a) \<subseteq> set (arg_words b)"
      and "fst ` set (who_info' b) \<subseteq> set (who_order' b)" "distinct (map fst (who_info' b))"
  shows "who_consistent b"
  using assms unfolding who_consistent_def toggle_free_def by auto

lemma add_who_consistent:
  assumes "add_who st x = Inr st'" "who_consistent st"
  shows "who_consistent st'"
proof -
  let ?v = "\<lparr>sequence = who_sequence st, previous_word = previous_word' st\<rparr>"
  from assms(1) have st': "st' = st\<lparr>who_info' := AList.update x ?v (who_info' st),
                                     who_sequence := who_sequence st + 1,
                                     who_order' := who_order' st @ [x]\<rparr>"
    by (auto simp: add_who_def split: if_splits)
  have keys: "fst ` set (AList.update x ?v (who_info' st)) = {x} \<union> fst ` set (who_info' st)"
    by (rule dom_update)
  have "distinct (map fst (AList.update x ?v (who_info' st)))"
    using assms(2) by (simp add: who_consistent_def distinct_update)
  then show ?thesis
    using assms(2) unfolding st' who_consistent_def by (simp add: keys) blast
qed

lemma del_who_consistent:
  assumes "del_who st x = Inr st'" "who_consistent st" "\<not> include_flag st"
  shows "who_consistent st'"
proof -
  from assms(1) have st': "st' = st\<lparr>who_info' := AList.delete x (who_info' st),
                                     who_order' := remove1 x (who_order' st)\<rparr>"
    by (auto simp: del_who_def split: if_splits)
  have "fst ` set (AList.delete x (who_info' st)) \<subseteq> set (remove1 x (who_order' st))"
  proof
    fix a assume "a \<in> fst ` set (AList.delete x (who_info' st))"
    then have "a \<in> fst ` set (who_info' st)" "a \<noteq> x"
      using dom_delete_subset[of x "who_info' st"] delete_notin_dom[of x "who_info' st"] by auto
    with assms(2) show "a \<in> set (remove1 x (who_order' st))"
      by (auto simp: who_consistent_def in_set_remove1)
  qed
  moreover have "distinct (map fst (AList.delete x (who_info' st)))"
    using assms(2) by (simp add: who_consistent_def distinct_delete)
  ultimately show ?thesis
    using assms(2,3) by (intro who_consistent_excluding[of st st']) (simp_all add: st')
qed

lemma discard_who_consistent:
  "discard_who st x = Inr st' \<Longrightarrow> who_consistent st \<Longrightarrow> \<not> include_flag st \<Longrightarrow> who_consistent st'"
  by (auto simp: discard_who_def dest: del_who_consistent split: if_splits)

lemma mention_consistent:
  "mention st x = Inr st' \<Longrightarrow> who_consistent st \<Longrightarrow> who_consistent st'"
  by (auto simp: mention_def dest: add_who_consistent discard_who_consistent split: if_splits)

lemma add_who_frame:
  "add_who st x = Inr st' \<Longrightarrow> include_flag st' = include_flag st \<and> arg_words st' = arg_words st"
  by (auto simp: add_who_def split: if_splits)

lemma del_who_frame:
  "del_who st x = Inr st' \<Longrightarrow> include_flag st' = include_flag st \<and> arg_words st' = arg_words st"
  by (auto simp: del_who_def split: if_splits)

lemma who_consistent_append:
  "who_consistent st \<Longrightarrow> who_consistent (st\<lparr>arg_words := arg_words st @ [nm]\<rparr>)"
  by (rule who_consistent_transfer) auto

lemma pronoun_targets_consistent:
  "pronoun_targets st who_list = Inr st' \<Longrightarrow> who_consistent st \<Longrightarrow> who_consistent st'"
proof (induction who_list arbitrary: st)
  case Nil
  then show ?case by simp
next
  case (Cons a who_list)
  obtain who nm where a: "a = (who, nm)" by (cases a)
  from Cons.prems(1) obtain st1 where
    step: "(if include_flag st then add_who st who else del_who st who) = Inr st1"
    and rest: "pronoun_targets (st1\<lparr>arg_words := arg_words st1 @ [nm]\<rparr>) who_list = Inr st'"
    by (auto simp: a split: sum.splits)
  from step Cons.prems(2) have "who_consistent st1"
    by (auto dest: add_who_consistent del_who_consistent split: if_splits)
  then have "who_consistent (st1\<lparr>arg_words := arg_words st1 @ [nm]\<rparr>)"
    by (rule who_consistent_append)
  with Cons.IH rest show ?case by blast
qed

lemma add_everyone_consistent:
  "add_everyone pl st ls = Inr st' \<Longrightarrow> who_consistent st \<Longrightarrow> who_consistent st'"
  by (induction ls arbitrary: st) (auto dest: add_who_consistent split: if_splits sum.splits)

lemma unrecognized_word_consistent:
  assumes "unrecognized_word T w vi words word st = Inr st'" "who_consistent st"
  shows "who_consistent st'"
proof -
  from assms(1) have "who_info' st' = who_info' st \<and> who_order' st' = who_order' st
      \<and> include_flag st' = include_flag st \<and> set (arg_words st) \<subseteq> set (arg_words st')"
    by (auto simp: unrecognized_word_def split: if_splits option.splits list.splits)
  with assms(2) show ?thesis by (intro who_consistent_transfer[of st st']) auto
qed

lemma finish_target_consistent:
  assumes "finish_target r nm count = Inr (st', k)" "\<And>s. r = Inr s \<Longrightarrow> who_consistent s"
  shows "who_consistent st'"
proof (cases r)
  case (Inl e)
  with assms(1) show ?thesis by (simp add: finish_target_def)
next
  case (Inr s)
  with assms(1) have "st' = s\<lparr>arg_words := arg_words s @ [nm], previous_word' := None\<rparr>"
    by (auto simp: finish_target_def)
  then show ?thesis using assms(2)[OF Inr] by (intro who_consistent_transfer[of s st']) auto
qed


lemma parse_name_word_consistent:
  assumes r: "parse_name_word T w vi words index word st = Inr (st', k)" and c: "who_consistent st"
  shows "who_consistent st'"
proof (cases "map_of (all_livings_of w) word")
  case (Some living)
  with r have "finish_target (mention st living) word 0 = Inr (st', k)"
    by (simp add: parse_name_word_def)
  then show ?thesis by (rule finish_target_consistent) (rule mention_consistent[OF _ c])
next
  case None
  note nl = None
  show ?thesis
  proof (cases "map_of (all_items_of w) word")
    case (Some item)
    with r nl have "finish_target (mention st item) word 0 = Inr (st', k)"
      by (simp add: parse_name_word_def)
    then show ?thesis by (rule finish_target_consistent) (rule mention_consistent[OF _ c])
  next
    case None
    note ni = None
    from r nl ni obtain em where
      em: "check_name_with_spaces words index (map_of (exits w)) Map.empty = Inr em"
      by (cases "check_name_with_spaces words index (map_of (exits w)) Map.empty")
         (simp_all add: parse_name_word_def)
    show ?thesis
    proof (cases "found em")
      case (Some m)
      obtain ex exit_name wordcount where m: "m = (ex, exit_name, wordcount)" by (cases m)
      with r nl ni em Some
      have "finish_target (add_who st ex) exit_name (wordcount - 1) = Inr (st', k)"
        by (simp add: parse_name_word_def)
      then show ?thesis by (rule finish_target_consistent) (rule add_who_consistent[OF _ c])
    next
      case None
      note ne = None
      from r nl ni em ne obtain nm where
        nm: "check_name_with_spaces words index (map_of (all_livings_of w)) (map_of (all_items_of w)) = Inr nm"
        by (cases "check_name_with_spaces words index (map_of (all_livings_of w)) (map_of (all_items_of w))")
           (simp_all add: parse_name_word_def)
      show ?thesis
      proof (cases "found nm")
        case (Some m)
        obtain item full_name wordcount where m: "m = (item, full_name, wordcount)" by (cases m)
        with r nl ni em ne nm Some
        have "finish_target (mention st item) full_name (wordcount - 1) = Inr (st', k)"
          by (simp add: parse_name_word_def)
        then show ?thesis by (rule finish_target_consistent) (rule mention_consistent[OF _ c])
      next
        case None
        show ?thesis
        proof (cases "message_verb vi \<and> message' st = []")
          case True
          with r nl ni em ne nm None
          have "st' = st\<lparr>collect_message := True, message' := message' st @ [word],
                          arg_words := arg_words st @ [word]\<rparr>"
            by (simp add: parse_name_word_def)
          then show ?thesis using c by (intro who_consistent_transfer[of st st']) auto
        next
          case False
          with r nl ni em ne nm None
          have "unrecognized_word T w vi words word st = Inr st'"
            by (cases "unrecognized_word T w vi words word st") (simp_all add: parse_name_word_def)
          then show ?thesis using c by (rule unrecognized_word_consistent)
        qed
      qed
    qed
  qed
qed

lemma everyone_word_consistent:
  assumes r: "everyone_word w word st = Inr (st', k)" and c: "who_consistent st"
  shows "who_consistent st'"
proof (cases "include_flag st")
  case True
  with r have "finish_target (add_everyone (player w) st (livings w)) word 0 = Inr (st', k)"
    by (simp add: everyone_word_def split: if_splits)
  then show ?thesis by (rule finish_target_consistent) (rule add_everyone_consistent[OF _ c])
next
  case False
  with r have "st' = st\<lparr>who_info' := [], who_plain := True, who_order' := [], who_sequence := 0,
                         arg_words := arg_words st @ [word], previous_word' := None\<rparr>"
    by (simp add: everyone_word_def)
  then show ?thesis using c False by (intro who_consistent_excluding[of st st']) auto
qed

lemma set_bodypart_consistent:
  assumes "set_bodypart T word st = Inr (st', k)" "who_consistent st"
  shows "who_consistent st'"
proof -
  from assms(1) have "st' = st\<lparr>bodypart' := Some word, arg_words := arg_words st @ [word]\<rparr>"
    by (auto simp: set_bodypart_def split: option.splits if_splits prod.splits)
  then show ?thesis using assms(2) by (intro who_consistent_transfer[of st st']) auto
qed

lemma set_adverb_consistent:
  assumes "set_adverb word st = Inr (st', k)" "who_consistent st"
  shows "who_consistent st'"
proof -
  from assms(1) have "st' = st\<lparr>adverb' := Some word, arg_words := arg_words st @ [word]\<rparr>"
    by (auto simp: set_adverb_def split: option.splits if_splits)
  then show ?thesis using assms(2) by (intro who_consistent_transfer[of st st']) auto
qed

lemma parse_other_word_consistent:
  assumes r: "parse_other_word T w vi words index word st = Inr (st', k)" and c: "who_consistent st"
  shows "who_consistent st'"
proof -
  consider (me) "finish_target (mention st (player w)) word 0 = Inr (st', k)"
    | (body) "set_bodypart T word st = Inr (st', k)"
    | (every) "everyone_word w word st = Inr (st', k)"
    | (toggle) "word \<in> {''except'', ''but''}"
               "st' = st\<lparr>include_flag := \<not> include_flag st, arg_words := arg_words st @ [word]\<rparr>"
    | (adv) "set_adverb word st = Inr (st', k)"
    | (name) "parse_name_word T w vi words index word st = Inr (st', k)"
    using r unfolding parse_other_word_def by (simp split: if_splits)
  then show ?thesis
  proof cases
    case me
    then show ?thesis by (rule finish_target_consistent) (rule mention_consistent[OF _ c])
  next
    case body
    then show ?thesis using c by (rule set_bodypart_consistent)
  next
    case every
    then show ?thesis using c by (rule everyone_word_consistent)
  next
    case toggle
    then show ?thesis using c unfolding who_consistent_def toggle_free_def by auto
  next
    case adv
    then show ?thesis using c by (rule set_adverb_consistent)
  next
    case name
    then show ?thesis using c by (rule parse_name_word_consistent)
  qed
qed

lemma parse_word_consistent:
  assumes r: "parse_word T w prev vi words index word0 st = (out, Inr (st', k))" and c: "who_consistent st"
  shows "who_consistent st'"
proof (cases "collect_message st")
  case True
  with r have "st' = st\<lparr>message' := message' st @ [word0], arg_words := arg_words st @ [word0],
                          previous_word' := Some word0\<rparr>"
    by (simp add: parse_word_def)
  then show ?thesis using c by (intro who_consistent_transfer[of st st']) auto
next
  case False
  define word where "word = (if \<not> message_verb vi then rstrip_comma word0 else word0)"
  show ?thesis
  proof (cases "word \<in> {''them'', ''him'', ''her'', ''it''}")
    case True
    with r False obtain pp who_list st1 where
      st1: "pronoun_targets st who_list = Inr st1" "st' = st1\<lparr>previous_word' := None\<rparr>"
      unfolding parse_word_def Let_def word_def[symmetric]
      by (simp split: option.splits prod.splits sum.splits)
    from st1(1) c have "who_consistent st1" by (rule pronoun_targets_consistent)
    then show ?thesis using st1(2) by (intro who_consistent_transfer[of st1 st']) auto
  next
    case notpron: False
    with r False have "parse_other_word T w vi words index word st = Inr (st', k)"
      unfolding parse_word_def Let_def word_def[symmetric] by simp
    then show ?thesis using c by (rule parse_other_word_consistent)
  qed
qed

lemma parse_words_consistent:
  "parse_words T w prev vi words index skip ws st = (out, Inr st') \<Longrightarrow> who_consistent st \<Longrightarrow>
   who_consistent st'"
proof (induction ws arbitrary: index skip st out)
  case Nil
  then show ?case by simp
next
  case (Cons word rest)
  show ?case
  proof (cases "0 < skip")
    case True
    with Cons show ?thesis by auto
  next
    case False
    with Cons.prems(1) obtain t1 st1 k t2 where
      step: "parse_word T w prev vi words index word st = (t1, Inr (st1, k))"
      and rest: "parse_words T w prev vi words (Suc index) k rest st1 = (t2, Inr st')"
      by (auto split: prod.splits sum.splits)
    from step Cons.prems(2) have "who_consistent st1" by (rule parse_word_consistent)
    with Cons.IH rest show ?thesis by blast
  qed
qed

lemma refill_fold:
  "fst ` set (foldl (\<lambda>d (i, who). AList.update who \<lparr>sequence = i, previous_word = None\<rparr> d) d0
                (enumerate n xs)) = fst ` set d0 \<union> set xs
   \<and> (distinct (map fst d0) \<longrightarrow>
        distinct (map fst (foldl (\<lambda>d (i, who). AList.update who \<lparr>sequence = i, previous_word = None\<rparr> d)
                             d0 (enumerate n xs))))"
proof (induction xs arbitrary: d0 n)
  case Nil
  then show ?case by simp
next
  case (Cons x xs)
  have "fst ` set (AList.update x \<lparr>sequence = n, previous_word = None\<rparr> d0) = {x} \<union> fst ` set d0"
    by (rule dom_update)
  moreover have "distinct (map fst d0) \<longrightarrow>
      distinct (map fst (AList.update x \<lparr>sequence = n, previous_word = None\<rparr> d0))"
    by (simp add: distinct_update)
  ultimately show ?case
    using Cons.IH[of "AList.update x \<lparr>sequence = n, previous_word = None\<rparr> d0" "Suc n"]
    by auto
qed

lemma refill_keys: "fst ` set (refill order) = set order" "distinct (map fst (refill order))"
  using refill_fold[of "[]" 0 order] by (simp_all add: refill_def)

lemma finish_parse_who:
  "finish_parse vi words u st = Inr p \<Longrightarrow>
   who_order p = who_order' st \<and> args p = arg_words st
   \<and> who_info p = (if who_info' st = [] \<and> who_order' st \<noteq> [] then refill (who_order' st)
                   else who_info' st)"
  by (auto simp: finish_parse_def ParseResult_init_def split: option.splits list.splits if_splits)

text \<open>
  C1 (as the code has it). For every command line, snapshot, memory and table for which
  \<open>Soul.parse\<close> returns a \<open>ParseResult\<close>: every key of \<open>who_info\<close> is an entity of
  \<open>who_order\<close>, and \<open>len(who_info) <= len(who_order)\<close>; when neither "except" nor "but" is
  among the \<open>args\<close> of the result, the keys of \<open>who_info\<close> are exactly the entities of
  \<open>who_order\<close>. An entity that is named more than once is in \<open>who_order\<close> more than once.
\<close>

theorem who_info_within_who_order:
  assumes "Soul_parse T w prev cmd ext = (out, Inr p)"
  shows "fst ` set (who_info p) \<subseteq> set (who_order p)
     \<and> length (who_info p) \<le> length (who_order p)
     \<and> (''except'' \<notin> set (args p) \<and> ''but'' \<notin> set (args p) \<longrightarrow>
          fst ` set (who_info p) = set (who_order p))"
proof -
  from assms obtain vi words u msg st where
    loop: "parse_words T w prev vi words 0 0 words (initial_pstate msg) = (out, Inr st)"
    and fin: "finish_parse vi words u st = Inr p"
    by (auto simp: Soul_parse_def Let_def split: sum.splits prod.splits list.splits if_splits)
  have "who_consistent (initial_pstate msg)"
    by (simp add: who_consistent_def initial_pstate_def)
  with loop have c: "who_consistent st" by (rule parse_words_consistent)
  from finish_parse_who[OF fin] have p: "who_order p = who_order' st" "args p = arg_words st"
    "who_info p = (if who_info' st = [] \<and> who_order' st \<noteq> [] then refill (who_order' st)
                   else who_info' st)" by simp_all
  consider (fill) "who_info p = refill (who_order p)" | (keep) "who_info p = who_info' st"
    using p by (cases "who_info' st = [] \<and> who_order' st \<noteq> []") simp_all
  then have sub: "fst ` set (who_info p) \<subseteq> set (who_order p)"
    and dist: "distinct (map fst (who_info p))"
    and eq: "toggle_free (args p) \<longrightarrow> fst ` set (who_info p) = set (who_order p)"
  proof (atomize (full), cases)
    case fill
    then show "fst ` set (who_info p) \<subseteq> set (who_order p) \<and> distinct (map fst (who_info p))
        \<and> (toggle_free (args p) \<longrightarrow> fst ` set (who_info p) = set (who_order p))"
      using refill_keys[of "who_order p"] by simp
  next
    case keep
    then show "fst ` set (who_info p) \<subseteq> set (who_order p) \<and> distinct (map fst (who_info p))
        \<and> (toggle_free (args p) \<longrightarrow> fst ` set (who_info p) = set (who_order p))"
      using c by (simp add: who_consistent_def p(1,2))
  qed
  have "length (who_info p) = card (fst ` set (who_info p))"
    using distinct_card[OF dist] by simp
  also have "\<dots> \<le> card (set (who_order p))" using sub by (intro card_mono) auto
  also have "\<dots> \<le> length (who_order p)" by (rule card_length)
  finally have len: "length (who_info p) \<le> length (who_order p)" .
  from sub len eq show ?thesis by (simp add: toggle_free_def)
qed

text \<open>"smile at bob" for alice: one key, one target, no exclusion.\<close>

theorem who_info_within_who_order_witness:
  "Soul_parse example_tables (room alice [alice, bob]) None ''smile at bob'' {} = ([], Inr smile_at_bob)
   \<and> fst ` set (who_info smile_at_bob) \<subseteq> set (who_order smile_at_bob)
   \<and> length (who_info smile_at_bob) \<le> length (who_order smile_at_bob)
   \<and> ''except'' \<notin> set (args smile_at_bob) \<and> ''but'' \<notin> set (args smile_at_bob)
   \<and> fst ` set (who_info smile_at_bob) = set (who_order smile_at_bob)"
  using who_info_within_who_order[OF parse_smile_at_bob] parse_smile_at_bob
  by (simp add: smile_at_bob_def)

text \<open>
  C1 as stated fails. "wave at bob bob" returns a result in which \<open>who_order\<close> holds bob
  twice and \<open>who_info\<close> has one key; "wave at bob bob carol except bob" returns one in
  which bob is still in \<open>who_order\<close> and the only key of \<open>who_info\<close> is carol.
\<close>

theorem who_order_repeats:
  "Soul_parse example_tables (room dave [alice, bob, carol, dave]) None ''wave at bob bob'' {}
     = ([], Inr bob_twice)
   \<and> \<not> distinct (who_order bob_twice)
   \<and> length (who_order bob_twice) \<noteq> length (who_info bob_twice)
   \<and> Soul_parse example_tables (room dave [alice, bob, carol, dave]) None
        ''wave at bob bob carol except bob'' {}
     = ([], Inr bob_excluded)
   \<and> fst ` set (who_info bob_excluded) \<noteq> set (who_order bob_excluded)
   \<and> length (who_order bob_excluded) \<noteq> length (who_info bob_excluded)"
proof -
  have a: "Soul_parse example_tables (room dave [alice, bob, carol, dave]) None ''wave at bob bob'' {}
     = ([], Inr bob_twice)"
    by code_simp
  have b: "Soul_parse example_tables (room dave [alice, bob, carol, dave]) None
        ''wave at bob bob carol except bob'' {} = ([], Inr bob_excluded)"
    by code_simp
  have ne: "bob \<noteq> carol" by (simp add: bob_def carol_def person_def)
  show ?thesis using a b ne by (auto simp: bob_twice_def bob_excluded_def)
qed

section \<open>Properties of the rebound who\_info\<close>

lemma add_who_rebound: "rebound st \<Longrightarrow> add_who st x = Inl KeyError"
  by (simp add: add_who_def rebound_def)

lemma del_who_rebound: "rebound st \<Longrightarrow> del_who st x = Inl KeyError"
  by (simp add: del_who_def rebound_def)

lemma mention_rebound: "rebound st \<Longrightarrow> mention st x = (if include_flag st then Inl KeyError else Inr st)"
  by (simp add: mention_def discard_who_def add_who_rebound) (simp add: rebound_def)

lemma rebound_transfer:
  "rebound a \<Longrightarrow> who_plain b = who_plain a \<Longrightarrow> who_info' b = who_info' a \<Longrightarrow>
   who_order' b = who_order' a \<Longrightarrow> rebound b"
  by (simp add: rebound_def)

lemma finish_target_rebound:
  assumes "finish_target r nm count = Inr (st', k)" "\<And>s. r = Inr s \<Longrightarrow> rebound s"
  shows "rebound st'"
proof (cases r)
  case (Inl e)
  with assms(1) show ?thesis by (simp add: finish_target_def)
next
  case (Inr s)
  with assms(1) have "st' = s\<lparr>arg_words := arg_words s @ [nm], previous_word' := None\<rparr>"
    by (auto simp: finish_target_def)
  then show ?thesis using assms(2)[OF Inr] by (simp add: rebound_def)
qed

lemma mention_rebound_keeps: "mention st x = Inr s \<Longrightarrow> rebound st \<Longrightarrow> rebound s"
  by (simp add: mention_rebound split: if_splits)

lemma add_who_rebound_keeps: "add_who st x = Inr s \<Longrightarrow> rebound st \<Longrightarrow> rebound s"
  by (simp add: add_who_rebound)

lemma pronoun_targets_rebound:
  "pronoun_targets st who_list = Inr st' \<Longrightarrow> rebound st \<Longrightarrow> rebound st'"
  by (cases who_list) (auto simp: add_who_rebound del_who_rebound split: if_splits)

lemma add_everyone_rebound:
  "add_everyone pl st ls = Inr st' \<Longrightarrow> rebound st \<Longrightarrow> rebound st'"
  by (induction ls arbitrary: st) (auto simp: add_who_rebound split: if_splits)

lemma unrecognized_word_rebound:
  assumes "unrecognized_word T w vi words word st = Inr st'" "rebound st"
  shows "rebound st'"
proof -
  from assms(1) have "who_plain st' = who_plain st \<and> who_info' st' = who_info' st
      \<and> who_order' st' = who_order' st"
    by (auto simp: unrecognized_word_def split: if_splits option.splits list.splits)
  with assms(2) show ?thesis by (simp add: rebound_def)
qed

lemma parse_name_word_rebound:
  assumes r: "parse_name_word T w vi words index word st = Inr (st', k)" and c: "rebound st"
  shows "rebound st'"
proof (cases "map_of (all_livings_of w) word")
  case (Some living)
  with r have "finish_target (mention st living) word 0 = Inr (st', k)"
    by (simp add: parse_name_word_def)
  then show ?thesis by (rule finish_target_rebound) (rule mention_rebound_keeps[OF _ c])
next
  case None
  note nl = None
  show ?thesis
  proof (cases "map_of (all_items_of w) word")
    case (Some item)
    with r nl have "finish_target (mention st item) word 0 = Inr (st', k)"
      by (simp add: parse_name_word_def)
    then show ?thesis by (rule finish_target_rebound) (rule mention_rebound_keeps[OF _ c])
  next
    case None
    note ni = None
    from r nl ni obtain em where
      em: "check_name_with_spaces words index (map_of (exits w)) Map.empty = Inr em"
      by (cases "check_name_with_spaces words index (map_of (exits w)) Map.empty")
         (simp_all add: parse_name_word_def)
    show ?thesis
    proof (cases "found em")
      case (Some m)
      obtain ex exit_name wordcount where m: "m = (ex, exit_name, wordcount)" by (cases m)
      with r nl ni em Some
      have "finish_target (add_who st ex) exit_name (wordcount - 1) = Inr (st', k)"
        by (simp add: parse_name_word_def)
      then show ?thesis by (rule finish_target_rebound) (rule add_who_rebound_keeps[OF _ c])
    next
      case None
      note ne = None
      from r nl ni em ne obtain nm where
        nm: "check_name_with_spaces words index (map_of (all_livings_of w)) (map_of (all_items_of w)) = Inr nm"
        by (cases "check_name_with_spaces words index (map_of (all_livings_of w)) (map_of (all_items_of w))")
           (simp_all add: parse_name_word_def)
      show ?thesis
      proof (cases "found nm")
        case (Some m)
        obtain item full_name wordcount where m: "m = (item, full_name, wordcount)" by (cases m)
        with r nl ni em ne nm Some
        have "finish_target (mention st item) full_name (wordcount - 1) = Inr (st', k)"
          by (simp add: parse_name_word_def)
        then show ?thesis by (rule finish_target_rebound) (rule mention_rebound_keeps[OF _ c])
      next
        case None
        show ?thesis
        proof (cases "message_verb vi \<and> message' st = []")
          case True
          with r nl ni em ne nm None
          have "st' = st\<lparr>collect_message := True, message' := message' st @ [word],
                          arg_words := arg_words st @ [word]\<rparr>"
            by (simp add: parse_name_word_def)
          then show ?thesis using c by (simp add: rebound_def)
        next
          case False
          with r nl ni em ne nm None
          have "unrecognized_word T w vi words word st = Inr st'"
            by (cases "unrecognized_word T w vi words word st") (simp_all add: parse_name_word_def)
          then show ?thesis using c by (rule unrecognized_word_rebound)
        qed
      qed
    qed
  qed
qed

lemma everyone_word_rebound:
  assumes r: "everyone_word w word st = Inr (st', k)" and c: "rebound st"
  shows "rebound st'"
proof (cases "include_flag st")
  case True
  with r have "finish_target (add_everyone (player w) st (livings w)) word 0 = Inr (st', k)"
    by (simp add: everyone_word_def split: if_splits)
  then show ?thesis by (rule finish_target_rebound) (rule add_everyone_rebound[OF _ c])
next
  case False
  with r show ?thesis by (auto simp: everyone_word_def rebound_def)
qed

lemma parse_other_word_rebound:
  assumes r: "parse_other_word T w vi words index word st = Inr (st', k)" and c: "rebound st"
  shows "rebound st'"
proof -
  consider (me) "finish_target (mention st (player w)) word 0 = Inr (st', k)"
    | (body) "set_bodypart T word st = Inr (st', k)"
    | (every) "everyone_word w word st = Inr (st', k)"
    | (toggle) "st' = st\<lparr>include_flag := \<not> include_flag st, arg_words := arg_words st @ [word]\<rparr>"
    | (adv) "set_adverb word st = Inr (st', k)"
    | (name) "parse_name_word T w vi words index word st = Inr (st', k)"
    using r unfolding parse_other_word_def by (simp split: if_splits)
  then show ?thesis
  proof cases
    case me
    then show ?thesis by (rule finish_target_rebound) (rule mention_rebound_keeps[OF _ c])
  next
    case body
    then show ?thesis using c
      by (auto simp: set_bodypart_def rebound_def split: option.splits if_splits prod.splits)
  next
    case every
    then show ?thesis using c by (rule everyone_word_rebound)
  next
    case toggle
    then show ?thesis using c by (simp add: rebound_def)
  next
    case adv
    then show ?thesis using c
      by (auto simp: set_adverb_def rebound_def split: option.splits if_splits)
  next
    case name
    then show ?thesis using c by (rule parse_name_word_rebound)
  qed
qed

lemma parse_word_rebound:
  assumes r: "parse_word T w prev vi words index word0 st = (out, Inr (st', k))" and c: "rebound st"
  shows "rebound st'"
proof (cases "collect_message st")
  case True
  with r have "st' = st\<lparr>message' := message' st @ [word0], arg_words := arg_words st @ [word0],
                          previous_word' := Some word0\<rparr>"
    by (simp add: parse_word_def)
  then show ?thesis using c by (simp add: rebound_def)
next
  case False
  define word where "word = (if \<not> message_verb vi then rstrip_comma word0 else word0)"
  show ?thesis
  proof (cases "word \<in> {''them'', ''him'', ''her'', ''it''}")
    case True
    with r False obtain pp who_list st1 where
      st1: "pronoun_targets st who_list = Inr st1" "st' = st1\<lparr>previous_word' := None\<rparr>"
      unfolding parse_word_def Let_def word_def[symmetric]
      by (simp split: option.splits prod.splits sum.splits)
    from st1(1) c have "rebound st1" by (rule pronoun_targets_rebound)
    then show ?thesis using st1(2) by (simp add: rebound_def)
  next
    case notpron: False
    with r False have "parse_other_word T w vi words index word st = Inr (st', k)"
      unfolding parse_word_def Let_def word_def[symmetric] by simp
    then show ?thesis using c by (rule parse_other_word_rebound)
  qed
qed

lemma parse_words_rebound:
  "parse_words T w prev vi words index skip ws st = (out, Inr st') \<Longrightarrow> rebound st \<Longrightarrow> rebound st'"
proof (induction ws arbitrary: index skip st out)
  case Nil
  then show ?case by simp
next
  case (Cons word rest)
  show ?case
  proof (cases "0 < skip")
    case True
    with Cons show ?thesis by auto
  next
    case False
    with Cons.prems(1) obtain t1 st1 k t2 where
      step: "parse_word T w prev vi words index word st = (t1, Inr (st1, k))"
      and rest: "parse_words T w prev vi words (Suc index) k rest st1 = (t2, Inr st')"
      by (auto split: prod.splits sum.splits)
    from step Cons.prems(2) have "rebound st1" by (rule parse_word_rebound)
    with Cons.IH rest show ?thesis by blast
  qed
qed

lemma names_target_key_error:
  assumes "rebound st" "include_flag st" "names_target T w word"
  shows "parse_other_word T w vi words index word st = Inl KeyError"
proof (cases "word \<in> {''me'', ''myself'', ''self''}")
  case True
  then show ?thesis using assms(1,2)
    by (simp add: parse_other_word_def mention_rebound finish_target_def)
next
  case False
  with assms(3) have plain: "BODY_PARTS T word = None"
      "word \<notin> {''everyone'', ''everybody'', ''all'', ''everything'', ''except'', ''but''}"
      "word \<notin> ADVERBS T"
    and key: "map_of (all_livings_of w) word \<noteq> None \<or> map_of (all_items_of w) word \<noteq> None"
    by (simp_all add: names_target_def)
  from False plain have "parse_other_word T w vi words index word st
      = parse_name_word T w vi words index word st"
    by (simp add: parse_other_word_def)
  also have "\<dots> = Inl KeyError"
    using key assms(1,2)
    by (auto simp: parse_name_word_def mention_rebound finish_target_def split: option.splits)
  finally show ?thesis .
qed

text \<open>
  C9. When "everyone", "everybody" or "all" is read while the include flag is false,
  \<open>who_info\<close> is rebound to a plain empty \<open>dict\<close> and the flag stays false. That state
  lasts through every further word that the loop gets past: nothing rebinds \<open>who_info\<close>
  again and nothing can be stored in it. Once the flag is true again and a word names the
  actor, a living or an item, the loop stops there with \<open>KeyError\<close>, which is none of
  \<open>ParseError\<close>, \<open>UnknownVerbException\<close> and \<open>NonSoulVerb\<close>.
\<close>

theorem plain_dict_key_error:
  "(\<not> collect_message st \<and> \<not> include_flag st \<and> word0 \<in> {''everyone'', ''everybody'', ''all''}
      \<and> BODY_PARTS T word0 = None \<longrightarrow>
      parse_word T w prev vi words index word0 st
        = ([], Inr (st\<lparr>who_info' := [], who_plain := True, who_order' := [], who_sequence := 0,
                        arg_words := arg_words st @ [word0], previous_word' := None\<rparr>, 0))
      \<and> rebound (st\<lparr>who_info' := [], who_plain := True, who_order' := [], who_sequence := 0,
                     arg_words := arg_words st @ [word0], previous_word' := None\<rparr>)
      \<and> \<not> include_flag (st\<lparr>who_info' := [], who_plain := True, who_order' := [], who_sequence := 0,
                     arg_words := arg_words st @ [word0], previous_word' := None\<rparr>))
   \<and> (rebound st1 \<and> parse_words T w prev vi words i skip ws st1 = (out, Inr st2) \<longrightarrow> rebound st2)
   \<and> (rebound st2 \<and> include_flag st2 \<and> \<not> collect_message st2
      \<and> names_target T w (if \<not> message_verb vi then rstrip_comma word1 else word1) \<longrightarrow>
      parse_words T w prev vi words j 0 (word1 # rest) st2 = ([], Inl KeyError))
   \<and> KeyError \<noteq> ParseError m \<and> KeyError \<noteq> UnknownVerbException v vs q \<and> KeyError \<noteq> NonSoulVerb p"
proof -
  let ?st' = "st\<lparr>who_info' := [], who_plain := True, who_order' := [], who_sequence := 0,
                 arg_words := arg_words st @ [word0], previous_word' := None\<rparr>"
  have one: "parse_word T w prev vi words index word0 st = ([], Inr (?st', 0))"
    if h: "\<not> collect_message st" "\<not> include_flag st"
          "word0 \<in> {''everyone'', ''everybody'', ''all''}" "BODY_PARTS T word0 = None"
  proof -
    have rs: "rstrip_comma word0 = word0" using h(3) by (auto simp: rstrip_comma_def)
    have np: "word0 \<notin> {''them'', ''him'', ''her'', ''it''}" "word0 \<notin> {''me'', ''myself'', ''self''}"
      using h(3) by auto
    have "parse_other_word T w vi words index word0 st = Inr (?st', 0)"
      using h(2,3,4) np(2) by (simp add: parse_other_word_def everyone_word_def)
    then show ?thesis using h(1) rs np(1) by (simp add: parse_word_def Let_def)
  qed
  have two: "rebound ?st'" "\<not> include_flag ?st'" if "\<not> include_flag st"
    using that by (simp_all add: rebound_def)
  have three: "parse_words T w prev vi words j 0 (word1 # rest) st2 = ([], Inl KeyError)"
    if "rebound st2" "include_flag st2" "\<not> collect_message st2"
       "names_target T w (if \<not> message_verb vi then rstrip_comma word1 else word1)"
  proof -
    let ?word = "if \<not> message_verb vi then rstrip_comma word1 else word1"
    from that(4) have "?word \<notin> {''them'', ''him'', ''her'', ''it''}"
      unfolding names_target_def by blast
    moreover have "parse_other_word T w vi words j ?word st2 = Inl KeyError"
      using that(1,2,4) by (rule names_target_key_error)
    ultimately have "parse_word T w prev vi words j word1 st2 = ([], Inl KeyError)"
      using that(3) unfolding parse_word_def Let_def by simp
    then show ?thesis by simp
  qed
  show ?thesis
  proof (intro conjI impI)
    assume "\<not> collect_message st \<and> \<not> include_flag st
        \<and> word0 \<in> {''everyone'', ''everybody'', ''all''} \<and> BODY_PARTS T word0 = None"
    then show "parse_word T w prev vi words index word0 st = ([], Inr (?st', 0))"
      using one by blast
  next
    assume "\<not> collect_message st \<and> \<not> include_flag st
        \<and> word0 \<in> {''everyone'', ''everybody'', ''all''} \<and> BODY_PARTS T word0 = None"
    then show "rebound ?st'" using two(1) by blast
  next
    assume "\<not> collect_message st \<and> \<not> include_flag st
        \<and> word0 \<in> {''everyone'', ''everybody'', ''all''} \<and> BODY_PARTS T word0 = None"
    then show "\<not> include_flag ?st'" using two(2) by blast
  next
    assume "rebound st1 \<and> parse_words T w prev vi words i skip ws st1 = (out, Inr st2)"
    then show "rebound st2" using parse_words_rebound by blast
  next
    assume "rebound st2 \<and> include_flag st2 \<and> \<not> collect_message st2
        \<and> names_target T w (if \<not> message_verb vi then rstrip_comma word1 else word1)"
    then show "parse_words T w prev vi words j 0 (word1 # rest) st2 = ([], Inl KeyError)"
      using three by blast
  qed simp_all
qed


text \<open>
  "wave except all but bob" in dave's room: "all" rebinds, "but" turns to inclusion, "bob"
  raises \<open>KeyError\<close>, and so does the whole parse.
\<close>

theorem plain_dict_key_error_witness:
  "parse_word example_tables (room dave [alice, bob, carol, dave]) None wave_info
      [''except'', ''all'', ''but'', ''bob''] 1 ''all'' after_except = ([], Inr (after_all, 0))
   \<and> rebound after_all \<and> \<not> include_flag after_all
   \<and> parse_words example_tables (room dave [alice, bob, carol, dave]) None wave_info
        [''except'', ''all'', ''but'', ''bob''] 2 0 [''but''] after_all = ([], Inr after_but)
   \<and> rebound after_but
   \<and> parse_words example_tables (room dave [alice, bob, carol, dave]) None wave_info
        [''except'', ''all'', ''but'', ''bob''] 3 0 [''bob''] after_but = ([], Inl KeyError)
   \<and> Soul_parse example_tables (room dave [alice, bob, carol, dave]) None
        ''wave except all but bob'' {} = ([], Inl KeyError)"
proof -
  let ?W = "room dave [alice, bob, carol, dave]"
  let ?ws = "[''except'', ''all'', ''but'', ''bob'']"
  have h1: "\<not> collect_message after_except" "\<not> include_flag after_except"
      "BODY_PARTS example_tables ''all'' = None"
    by (simp_all add: after_except_def initial_pstate_def example_tables_def)
  have upd: "after_except\<lparr>who_info' := [], who_plain := True, who_order' := [], who_sequence := 0,
                arg_words := arg_words after_except @ [''all''], previous_word' := None\<rparr> = after_all"
    by (simp add: after_all_def after_except_def)
  have h2: "parse_words example_tables ?W None wave_info ?ws 2 0 [''but''] after_all = ([], Inr after_but)"
    by code_simp
  have h3: "include_flag after_but" "\<not> collect_message after_but"
    by (simp_all add: after_but_def after_all_def after_except_def initial_pstate_def)
  have h4: "names_target example_tables ?W
              (if \<not> message_verb wave_info then rstrip_comma ''bob'' else ''bob'')"
    by code_simp
  have whole: "Soul_parse example_tables ?W None ''wave except all but bob'' {} = ([], Inl KeyError)"
    by code_simp
  note inst = plain_dict_key_error
      [where st = after_except and ?word0.0 = "''all''" and T = example_tables and w = "?W"
         and prev = None and vi = wave_info and words = "?ws" and index = 1
         and ?st1.0 = after_all and i = 2 and skip = 0 and ws = "[''but'']" and out = "[]"
         and ?st2.0 = after_but and ?word1.0 = "''bob''" and j = 3 and rest = "[]"]
  from inst h1 have a: "parse_word example_tables ?W None wave_info ?ws 1 ''all'' after_except
      = ([], Inr (after_all, 0))" "rebound after_all" "\<not> include_flag after_all"
    unfolding upd by simp_all
  from inst a(2) h2 have b: "rebound after_but" by blast
  from inst b h3 h4 have c: "parse_words example_tables ?W None wave_info ?ws 3 0 [''bob''] after_but
      = ([], Inl KeyError)" by blast
  show ?thesis using a h2 b c whole by simp
qed

section \<open>Properties of the rendering\<close>

lemma contains_append: "contains b x \<Longrightarrow> contains (a @ b) x"
  by (induction a) auto

lemma replace_keeps_prefix:
  "startswith cs t \<Longrightarrow> CHR '' '' \<notin> set t \<Longrightarrow> startswith (replace (ph ''AT'') new cs) t"
proof (induction t arbitrary: cs)
  case Nil
  then show ?case by simp
next
  case (Cons a t)
  then obtain cs' where cs: "cs = a # cs'" "startswith cs' t" by (cases cs) auto
  from Cons.prems(2) have "a \<noteq> CHR '' ''" by auto
  then have "\<not> startswith (a # cs') (ph ''AT'')" by (simp add: ph_def)
  then have "replace (ph ''AT'') new (a # cs') = a # replace (ph ''AT'') new cs'" by simp
  with Cons.IH[OF cs(2)] Cons.prems(2) cs(1) show ?case by simp
qed

lemma replace_keeps_marker:
  assumes "contains s (newline # t)" "t \<noteq> []" "hd t \<noteq> CHR ''A''" "CHR '' '' \<notin> set t"
  shows "contains (replace (ph ''AT'') new s) (newline # t)"
  using assms(1)
proof (induction "ph ''AT''" new s rule: replace.induct)
  case (1 new)
  then show ?case by simp
next
  case (2 new c cs)
  obtain tc ts where t: "t = tc # ts" "tc \<noteq> CHR ''A''" using assms(2,3) by (cases t) auto
  show ?case
  proof (cases "startswith (c # cs) (ph ''AT'')")
    case True
    then obtain rest where s: "c # cs = ph ''AT'' @ rest"
      by (auto simp: ph_def newline_def
               elim!: startswith.elims(2))
    have drop: "drop (length (ph ''AT'')) (c # cs) = rest" by (simp add: s)
    from "2.prems" have "contains rest (newline # t)"
      unfolding s using t by (simp add: ph_def newline_def)
    then have "contains (replace (ph ''AT'') new rest) (newline # t)"
      using "2.hyps"(1) True drop by (simp add: ph_def)
    then have "contains (new @ replace (ph ''AT'') new rest) (newline # t)"
      by (rule contains_append)
    then show ?thesis using True drop by (simp add: ph_def)
  next
    case False
    then have rep: "replace (ph ''AT'') new (c # cs) = c # replace (ph ''AT'') new cs" by simp
    from "2.prems" consider "startswith (c # cs) (newline # t)" | "contains cs (newline # t)"
      by auto
    then show ?thesis
    proof cases
      case 1
      then have "c = newline" "startswith cs t" by auto
      then have "startswith (c # replace (ph ''AT'') new cs) (newline # t)"
        using replace_keeps_prefix[OF _ assms(4)] by simp
      then show ?thesis unfolding rep by simp
    next
      case 2
      then have "contains (replace (ph ''AT'') new cs) (newline # t)"
        using "2.hyps"(2) False by (simp add: ph_def)
      then show ?thesis unfolding rep by simp
    qed
  qed
qed

lemma replace_keeps_wants_person:
  "wants_person action \<Longrightarrow> wants_person (replace (ph ''AT'') new action)"
  unfolding wants_person_def
  using replace_keeps_marker[of action "''WHO''" new] replace_keeps_marker[of action "''POSS''" new]
  by auto


lemma verb_slots_known_bodypart:
  assumes "\<forall>b. bodypart parsed = Some b \<and> b \<noteq> [] \<longrightarrow> BODY_PARTS T b \<noteq> None"
  shows "\<exists>slots. verb_slots T vd parsed = Inr slots"
  using assms
  by (cases "bodypart parsed") (auto simp: verb_slots_def Let_def truthy_def split: option.splits)

lemma percent_error: "percent t used arg = Inl e \<Longrightarrow> e = TypeError"
  by (induction t used arg rule: percent.induct) (auto split: if_splits sum.splits)

lemma result_messages_error:
  "result_messages T pl parsed action action_room \<noteq> Inl (ParseError m)"
proof
  assume r: "result_messages T pl parsed action action_room = Inl (ParseError m)"
  then show False
    by (auto simp: result_messages_def Let_def
             split: option.splits sum.splits if_splits prod.splits
             dest: percent_error)
qed

lemma result_messages_unqualified:
  "qualifier parsed = None \<Longrightarrow> \<exists>r. result_messages T pl parsed action action_room = Inr r"
  by (simp add: result_messages_def Let_def)

lemma verb_slots_error: "verb_slots T vd parsed \<noteq> Inl (ParseError m)"
  by (auto simp: verb_slots_def Let_def split: option.splits if_splits)

lemma verbdata_get_error: "verbdata_get vd i \<noteq> Inl (ParseError m)"
  by (simp add: verbdata_get_def)

lemma quad_error:
  assumes "VERBS T (verb parsed) = Some vd" "vtype vd = QUAD"
  shows "process_verb_parsed T (Some pl) parsed \<noteq> Inl (ParseError m)"
proof (cases "verb_slots T vd parsed")
  case (Inl e)
  then have "process_verb_parsed T (Some pl) parsed = Inl e"
    using assms by (simp add: process_verb_parsed_def)
  then show ?thesis using verb_slots_error[of T vd parsed m] Inl by auto
next
  case (Inr slots)
  obtain msg_what msg_quoted how where_clause
    where slots: "slots = (msg_what, msg_quoted, how, where_clause)"
    by (cases slots) auto
  let ?i = "if who_info parsed \<noteq> [] then 4 else (2::nat)"
  let ?j = "if who_info parsed \<noteq> [] then 5 else (3::nat)"
  show ?thesis
  proof (cases "verbdata_get vd ?i")
    case a: (Inl e)
    then have "process_verb_parsed T (Some pl) parsed = Inl e"
      using assms Inr slots by (simp add: process_verb_parsed_def)
    then show ?thesis using verbdata_get_error[of vd ?i m] a by auto
  next
    case a: (Inr action)
    show ?thesis
    proof (cases "verbdata_get vd ?j")
      case b: (Inl e)
      then have "process_verb_parsed T (Some pl) parsed = Inl e"
        using assms Inr slots a by (simp add: process_verb_parsed_def)
      then show ?thesis using verbdata_get_error[of vd ?j m] b by auto
    next
      case b: (Inr action_room)
      then have "process_verb_parsed T (Some pl) parsed
          = result_messages T pl parsed
              (fill_slots msg_what msg_quoted how where_clause action)
              (fill_slots msg_what msg_quoted how where_clause action_room)"
        using assms Inr slots a by (simp add: process_verb_parsed_def)
      then show ?thesis using result_messages_error by simp
    qed
  qed
qed

text \<open>
  C7 (as the code has it). Take a \<open>ParseResult\<close> with an empty target list, a known verb and
  no unknown body part. If the verb is of kind \<open>DEUX\<close> and its template \<open>verbdata[2]\<close> holds
  \<open>\nWHO\<close> or \<open>\nPOSS\<close>, rendering raises the \<open>ParseError\<close> "The verb X needs a person.",
  and no substitution comes before the test. If the verb is of another kind that is
  checked (not \<open>QUAD\<close>) and the action string built for the kind holds \<open>\nWHO\<close> or \<open>\nPOSS\<close>,
  rendering raises the same error; there the \<open>\nAT\<close> clause is replaced before the test,
  which does not remove a placeholder for a person. A \<open>QUAD\<close> verb is rendered without
  the test: with an empty \<open>who_info\<close> the result is that of \<open>result_messages\<close> on the pair
  of templates for no target, \<open>verbdata[2]\<close> and \<open>verbdata[3]\<close>, whatever the pair for
  targets holds; rendering a \<open>QUAD\<close> verb raises no \<open>ParseError\<close> at all, and without a
  qualifier it returns its messages.
\<close>

theorem needs_a_person:
  assumes empty: "who_order parsed = []"
      and vd: "VERBS T (verb parsed) = Some vd"
      and body: "\<forall>b. bodypart parsed = Some b \<and> b \<noteq> [] \<longrightarrow> BODY_PARTS T b \<noteq> None"
  shows "(vtype vd = DEUX \<and> verbdata_get vd 2 = Inr action \<and> verbdata_get vd 3 = Inr action_room
            \<and> wants_person action \<longrightarrow>
          process_verb_parsed T (Some pl) parsed = Inl (needs_person (verb parsed)))
     \<and> (vtype vd \<noteq> DEUX \<and> vtype vd \<noteq> QUAD \<and> simple_action vd parsed = Inr action0
            \<and> wants_person action0 \<longrightarrow>
          process_verb_parsed T (Some pl) parsed = Inl (needs_person (verb parsed)))
     \<and> (vtype vd = QUAD \<and> who_info parsed = []
            \<and> verbdata_get vd 2 = Inr action \<and> verbdata_get vd 3 = Inr action_room
            \<and> verb_slots T vd parsed = Inr (msg_what, msg_quoted, how, where_clause) \<longrightarrow>
          process_verb_parsed T (Some pl) parsed
            = result_messages T pl parsed
                (fill_slots msg_what msg_quoted how where_clause action)
                (fill_slots msg_what msg_quoted how where_clause action_room))
     \<and> (vtype vd = QUAD \<longrightarrow> process_verb_parsed T (Some pl) parsed \<noteq> Inl (ParseError m))
     \<and> (vtype vd = QUAD \<and> who_info parsed = [] \<and> 2 \<le> length (templates vd)
            \<and> qualifier parsed = None \<longrightarrow>
          (\<exists>r. process_verb_parsed T (Some pl) parsed = Inr r))"
proof -
  from verb_slots_known_bodypart[OF body] obtain mw mq hw wc where
    slots: "verb_slots T vd parsed = Inr (mw, mq, hw, wc)"
    by (metis prod_cases4)
  have deux: "process_verb_parsed T (Some pl) parsed = Inl (needs_person (verb parsed))"
    if "vtype vd = DEUX" "verbdata_get vd 2 = Inr action" "verbdata_get vd 3 = Inr action_room"
       "wants_person action"
    using that empty vd slots
    by (simp add: process_verb_parsed_def check_person_def wants_person_def)
  have other: "process_verb_parsed T (Some pl) parsed = Inl (needs_person (verb parsed))"
    if k: "vtype vd \<noteq> DEUX" "vtype vd \<noteq> QUAD" and a0: "simple_action vd parsed = Inr action0"
       and wp: "wants_person action0"
  proof (cases "who_info parsed \<noteq> [] \<and> 1 < length (templates vd)")
    case True
    then obtain at_clause where at: "verbdata_get vd 3 = Inr at_clause"
      by (auto simp: verbdata_get_def)
    have "\<not> check_person (replace (ph ''AT'') (spacify (Some at_clause) @ ph ''WHO'') action0)
               (who_order parsed)"
      using replace_keeps_wants_person[OF wp] empty by (simp add: check_person_def wants_person_def)
    then show ?thesis using True k a0 at vd slots by (simp add: process_verb_parsed_def)
  next
    case False
    have "\<not> check_person (replace (ph ''AT'') [] action0) (who_order parsed)"
      using replace_keeps_wants_person[OF wp] empty by (simp add: check_person_def wants_person_def)
    then show ?thesis using False k a0 vd slots by (auto simp: process_verb_parsed_def)
  qed
  have quad: "process_verb_parsed T (Some pl) parsed
            = result_messages T pl parsed
                (fill_slots msg_what msg_quoted how where_clause action)
                (fill_slots msg_what msg_quoted how where_clause action_room)"
    if "vtype vd = QUAD" "who_info parsed = []"
       "verbdata_get vd 2 = Inr action" "verbdata_get vd 3 = Inr action_room"
       "verb_slots T vd parsed = Inr (msg_what, msg_quoted, how, where_clause)"
    using that vd by (simp add: process_verb_parsed_def)
  have quiet: "process_verb_parsed T (Some pl) parsed \<noteq> Inl (ParseError m)" if "vtype vd = QUAD"
    using quad_error[OF vd that] .
  have returns: "\<exists>r. process_verb_parsed T (Some pl) parsed = Inr r"
    if q: "vtype vd = QUAD" "who_info parsed = []" and two: "2 \<le> length (templates vd)"
       and unq: "qualifier parsed = None"
  proof -
    define a where "a = templates vd ! 0"
    define b where "b = templates vd ! 1"
    from two have ab: "verbdata_get vd 2 = Inr a" "verbdata_get vd 3 = Inr b"
      by (auto simp: verbdata_get_def a_def b_def)
    have "process_verb_parsed T (Some pl) parsed
            = result_messages T pl parsed (fill_slots mw mq hw wc a) (fill_slots mw mq hw wc b)"
      using q ab vd slots by (simp add: process_verb_parsed_def)
    then show ?thesis using result_messages_unqualified[OF unq] by simp
  qed
  show ?thesis using deux other quad quiet returns by blast
qed

text \<open>
  "hug" (\<open>DEUX\<close>) and "pat" (\<open>PREV\<close>) without a target are refused; "greet sadly" (\<open>QUAD\<close>)
  without a target is rendered from the pair of templates for no target.
\<close>

theorem needs_a_person_witness:
  "process_verb_parsed example_tables (Some alice) (ParseResult ''hug'')
     = Inl (ParseError ''The verb hug needs a person.'')
   \<and> process_verb_parsed example_tables (Some alice) (ParseResult ''pat'')
     = Inl (ParseError ''The verb pat needs a person.'')
   \<and> process_verb_parsed example_tables (Some alice) ((ParseResult ''greet'')\<lparr>adverb := Some ''sadly''\<rparr>)
     = result_messages example_tables alice ((ParseResult ''greet'')\<lparr>adverb := Some ''sadly''\<rparr>)
         ''greet sadly'' ''greets sadly''
   \<and> process_verb_parsed example_tables (Some alice) ((ParseResult ''greet'')\<lparr>adverb := Some ''sadly''\<rparr>)
     \<noteq> Inl (ParseError ''The verb greet needs a person.'')
   \<and> (\<exists>r. process_verb_parsed example_tables (Some alice)
             ((ParseResult ''greet'')\<lparr>adverb := Some ''sadly''\<rparr>) = Inr r)"
proof -
  let ?hug = "\<lparr>vtype = DEUX, defaults = None,
      templates = [''hug'' @ ph ''WHO'' @ ph ''HOW'', ''hugs'' @ ph ''WHO'' @ ph ''HOW'']\<rparr>"
  let ?pat = "\<lparr>vtype = PREV, defaults = None, templates = [''on the back'']\<rparr>"
  let ?greet = "\<lparr>vtype = QUAD, defaults = Some [Some ''happily''],
      templates = [''greet'' @ ph ''HOW'', ''greets'' @ ph ''HOW'',
                   ''greet'' @ ph ''WHO'' @ ph ''HOW'', ''greets'' @ ph ''WHO'' @ ph ''HOW'']\<rparr>"
  let ?sadly = "(ParseResult ''greet'')\<lparr>adverb := Some ''sadly''\<rparr>"
  have h: "who_order (ParseResult ''hug'') = []" "VERBS example_tables (verb (ParseResult ''hug'')) = Some ?hug"
      "\<forall>b. bodypart (ParseResult ''hug'') = Some b \<and> b \<noteq> [] \<longrightarrow> BODY_PARTS example_tables b \<noteq> None"
      "vtype ?hug = DEUX" "verbdata_get ?hug 2 = Inr (''hug'' @ ph ''WHO'' @ ph ''HOW'')"
      "verbdata_get ?hug 3 = Inr (''hugs'' @ ph ''WHO'' @ ph ''HOW'')"
      "wants_person (''hug'' @ ph ''WHO'' @ ph ''HOW'')"
    by (simp_all add: ParseResult_def example_tables_def verbdata_get_def wants_person_def ph_def newline_def)
  have p: "who_order (ParseResult ''pat'') = []" "VERBS example_tables (verb (ParseResult ''pat'')) = Some ?pat"
      "\<forall>b. bodypart (ParseResult ''pat'') = Some b \<and> b \<noteq> [] \<longrightarrow> BODY_PARTS example_tables b \<noteq> None"
      "vtype ?pat \<noteq> DEUX" "vtype ?pat \<noteq> QUAD"
      "simple_action ?pat (ParseResult ''pat'') = Inr (''pat$ on the back'' @ ph ''WHO'' @ ph ''HOW'')"
      "wants_person (''pat$ on the back'' @ ph ''WHO'' @ ph ''HOW'')"
    by (simp_all add: ParseResult_def example_tables_def verbdata_get_def wants_person_def ph_def
          newline_def simple_action_def spacify_def)
  have g: "who_order ?sadly = []" "VERBS example_tables (verb ?sadly) = Some ?greet"
      "\<forall>b. bodypart ?sadly = Some b \<and> b \<noteq> [] \<longrightarrow> BODY_PARTS example_tables b \<noteq> None"
      "vtype ?greet = QUAD" "who_info ?sadly = []"
      "verbdata_get ?greet 2 = Inr (''greet'' @ ph ''HOW'')"
      "verbdata_get ?greet 3 = Inr (''greets'' @ ph ''HOW'')"
      "2 \<le> length (templates ?greet)" "qualifier ?sadly = None"
    by (simp_all add: ParseResult_def example_tables_def verbdata_get_def)
  have s: "verb_slots example_tables ?greet ?sadly = Inr ([], [], '' sadly'', [])"
    by (simp add: verb_slots_def ParseResult_def truthy_def spacify_def Let_def)
  have f: "fill_slots [] [] '' sadly'' [] (''greet'' @ ph ''HOW'') = ''greet sadly''"
      "fill_slots [] [] '' sadly'' [] (''greets'' @ ph ''HOW'') = ''greets sadly''"
    by code_simp+
  have n: "needs_person (verb (ParseResult ''hug'')) = ParseError ''The verb hug needs a person.''"
      "needs_person (verb (ParseResult ''pat'')) = ParseError ''The verb pat needs a person.''"
    by (simp_all add: needs_person_def ParseResult_def)
  from needs_a_person[OF h(1,2,3), of "''hug'' @ ph ''WHO'' @ ph ''HOW''"
                        "''hugs'' @ ph ''WHO'' @ ph ''HOW''" alice] h(4-7)
  have a: "process_verb_parsed example_tables (Some alice) (ParseResult ''hug'')
             = Inl (needs_person (verb (ParseResult ''hug'')))" by blast
  from needs_a_person[OF p(1,2,3), of _ _ alice "''pat$ on the back'' @ ph ''WHO'' @ ph ''HOW''"] p(4-7)
  have b: "process_verb_parsed example_tables (Some alice) (ParseResult ''pat'')
             = Inl (needs_person (verb (ParseResult ''pat'')))" by blast
  note q = needs_a_person[OF g(1,2,3), of "''greet'' @ ph ''HOW''" "''greets'' @ ph ''HOW''"
             alice _ "[]" "[]" "'' sadly''" "[]" "''The verb greet needs a person.''"]
  from q g(4-7) s
  have c: "process_verb_parsed example_tables (Some alice) ?sadly
             = result_messages example_tables alice ?sadly
                 (fill_slots [] [] '' sadly'' [] (''greet'' @ ph ''HOW''))
                 (fill_slots [] [] '' sadly'' [] (''greets'' @ ph ''HOW''))" by blast
  from q g(4) have d: "process_verb_parsed example_tables (Some alice) ?sadly
             \<noteq> Inl (ParseError ''The verb greet needs a person.'')" by blast
  from q g(4,5,8,9) have e: "\<exists>r. process_verb_parsed example_tables (Some alice) ?sadly = Inr r"
    by blast
  show ?thesis using a b c d e unfolding n f by simp
qed

text \<open>
  C7 as stated fails. "greet" is of kind \<open>QUAD\<close>; its templates for targets hold \<open>\nWHO\<close>.
  With an empty target list rendering raises no error: it returns the messages of the
  templates for no target.
\<close>

theorem quad_is_not_checked:
  "who_order (ParseResult ''greet'') = []
   \<and> VERBS example_tables ''greet''
       = Some \<lparr>vtype = QUAD, defaults = Some [Some ''happily''],
                templates = [''greet'' @ ph ''HOW'', ''greets'' @ ph ''HOW'',
                             ''greet'' @ ph ''WHO'' @ ph ''HOW'',
                             ''greets'' @ ph ''WHO'' @ ph ''HOW'']\<rparr>
   \<and> contains (''greet'' @ ph ''WHO'' @ ph ''HOW'') (newline # ''WHO'')
   \<and> process_verb_parsed example_tables (Some alice) (ParseResult ''greet'')
       = Inr ({}, ''You greet happily.'', ''Alice greets happily.'', ''Alice greets happily.'')"
proof -
  have "process_verb_parsed example_tables (Some alice) (ParseResult ''greet'')
       = Inr ({}, ''You greet happily.'', ''Alice greets happily.'', ''Alice greets happily.'')"
    by code_simp
  then show ?thesis
    by (simp add: ParseResult_def example_tables_def ph_def newline_def)
qed

end
